theory Spec2Isabelle
  imports Complex_Main "HOL-Library.AList"
begin

section \<open>JavaScript values\<close>

text \<open>
  The values that flow through \<^verbatim>\<open>lib/job.js\<close>: job ids, payloads, option values,
  progress values and the arguments of the configuration setters.

  A JavaScript number is a double. The model keeps \<open>NaN\<close> and the two infinities apart
  and holds every finite number by its exact value; each finite double is a rational
  number, so comparisons, truthiness and the safe-integer test are exact. Negative zero
  is not kept apart from zero: no operation of the file tells them apart. Where the
  file computes a number (\<^verbatim>\<open>parseFloat\<close>, the product with the unit multiplier) the
  exact result is rounded to the nearest double, ties to even, as the runtime does. The
  conversions between numbers and strings are partial functions: they give no answer
  where the language leaves the digits to the implementation or prints in exponent
  notation.

  A string is a list of characters; an object is its list of own properties in
  enumeration order; functions, dates, symbols and cyclic structures are not values of
  the model.
\<close>

datatype jsnum = NaN | NegInf | PosInf | Fin rat

datatype jsval =
    Undefined
  | Null
  | Bool bool
  | Num jsnum
  | Str string
  | Arr "jsval list"
  | Obj "(string \<times> jsval) list"

text \<open>ToBoolean: what \<^verbatim>\<open>if (v)\<close>, \<^verbatim>\<open>!v\<close> and \<^verbatim>\<open>v || w\<close> test.\<close>

fun truthy :: "jsval \<Rightarrow> bool" where
  "truthy Undefined = False"
| "truthy Null = False"
| "truthy (Bool b) = b"
| "truthy (Num NaN) = False"
| "truthy (Num (Fin r)) = (r \<noteq> 0)"
| "truthy (Num _) = True"
| "truthy (Str s) = (s \<noteq> [])"
| "truthy (Arr _) = True"
| "truthy (Obj _) = True"

text \<open>\<^verbatim>\<open>a || b\<close>\<close>

definition js_or :: "jsval \<Rightarrow> jsval \<Rightarrow> jsval" where
  "js_or a b = (if truthy a then a else b)"

text \<open>Reading a property of an object: \<^verbatim>\<open>undefined\<close> when it has none of that name.\<close>

definition get_prop :: "(string \<times> jsval) list \<Rightarrow> string \<Rightarrow> jsval" where
  "get_prop kvs k = (case map_of kvs k of None \<Rightarrow> Undefined | Some v \<Rightarrow> v)"

text \<open>
  Assigning a property: an existing property keeps its place, a new one goes last.
\<close>

definition set_prop :: "string \<Rightarrow> jsval \<Rightarrow> (string \<times> jsval) list \<Rightarrow> (string \<times> jsval) list" where
  "set_prop k v kvs = AList.update k v kvs"

text \<open>Comparisons of a number with a finite number: false when either side is NaN.\<close>

fun num_less :: "jsnum \<Rightarrow> rat \<Rightarrow> bool" where
  "num_less NaN _ = False"
| "num_less NegInf _ = True"
| "num_less PosInf _ = False"
| "num_less (Fin r) c = (r < c)"

fun num_greater :: "jsnum \<Rightarrow> rat \<Rightarrow> bool" where
  "num_greater NaN _ = False"
| "num_greater NegInf _ = False"
| "num_greater PosInf _ = True"
| "num_greater (Fin r) c = (r > c)"

text \<open>
  \<^verbatim>\<open>v < 0\<close> for an arbitrary value \<open>v\<close>: the value is converted to a number first
  (\<^verbatim>\<open>undefined\<close> to NaN, \<^verbatim>\<open>null\<close> and \<^verbatim>\<open>false\<close> to 0, \<^verbatim>\<open>true\<close> to 1).
  Strings, arrays and objects convert through the numeric-literal grammar; the model
  gives no answer for them (\<open>None\<close>).
\<close>

fun less_zero :: "jsval \<Rightarrow> bool option" where
  "less_zero Undefined = Some False"
| "less_zero Null = Some False"
| "less_zero (Bool b) = Some False"
| "less_zero (Num n) = Some (num_less n 0)"
| "less_zero (Str s) = None"
| "less_zero (Arr xs) = None"
| "less_zero (Obj kvs) = None"

text \<open>\<^verbatim>\<open>Number.isSafeInteger(v)\<close>: a number, integral, of magnitude at most \<open>2^53 - 1\<close>.\<close>

definition max_safe :: rat where
  "max_safe = 9007199254740991"

fun isSafeInteger :: "jsval \<Rightarrow> bool" where
  "isSafeInteger (Num (Fin r)) = (of_int \<lfloor>r\<rfloor> = r \<and> \<bar>r\<bar> \<le> max_safe)"
| "isSafeInteger _ = False"

section \<open>Strings and numbers\<close>

text \<open>
  Characters are code units below 256. \<open>is_space\<close> is the white space that
  \<^verbatim>\<open>parseInt\<close> and \<^verbatim>\<open>parseFloat\<close> skip (tab, line feed, vertical tab, form feed,
  carriage return, space, no-break space).
\<close>

definition is_space :: "char \<Rightarrow> bool" where
  "is_space c = (c \<in> set [CHR 0x09, CHR 0x0A, CHR 0x0B, CHR 0x0C, CHR 0x0D, CHR 0x20, CHR 0xA0])"

definition is_digit :: "char \<Rightarrow> bool" where
  "is_digit c = (c \<in> set ''0123456789'')"

text \<open>The value of a digit: its position in \<open>''0123456789''\<close>.\<close>

fun position :: "char list \<Rightarrow> char \<Rightarrow> nat" where
  "position [] c = 0"
| "position (d # ds) c = (if d = c then 0 else Suc (position ds c))"

definition digit_val :: "char \<Rightarrow> nat" where
  "digit_val c = position ''0123456789'' c"

definition digit_char :: "nat \<Rightarrow> char" where
  "digit_char d = ''0123456789'' ! d"

fun digits_value :: "nat \<Rightarrow> string \<Rightarrow> nat" where
  "digits_value acc [] = acc"
| "digits_value acc (c # cs) = digits_value (10 * acc + digit_val c) cs"

text \<open>An optional sign: whether it is a minus, and the rest of the string.\<close>

fun split_sign :: "string \<Rightarrow> bool \<times> string" where
  "split_sign [] = (False, [])"
| "split_sign (c # cs) =
     (if c = CHR ''-'' then (True, cs)
      else if c = CHR ''+'' then (False, cs)
      else (False, c # cs))"

definition signed :: "bool \<Rightarrow> nat \<Rightarrow> jsnum" where
  "signed neg n = Fin (if neg then - of_nat n else of_nat n)"

text \<open>Integers up to \<open>2^53\<close> are doubles; a longer digit string is rounded by the runtime.\<close>

definition exact_limit :: nat where
  "exact_limit = 9007199254740992"

text \<open>
  \<^verbatim>\<open>parseInt(s, 10)\<close> on a string: white space, an optional sign, then the longest
  run of decimal digits; NaN when there is no digit. \<open>None\<close> when the digits denote an
  integer above \<open>2^53\<close>.
\<close>

definition parseInt_str :: "string \<Rightarrow> jsnum option" where
  "parseInt_str s =
     (let (neg, r) = split_sign (dropWhile is_space s);
          ds = takeWhile is_digit r
      in if ds = [] then Some NaN
         else if digits_value 0 ds \<le> exact_limit then Some (signed neg (digits_value 0 ds))
         else None)"

text \<open>
  Rounding to the nearest double. A double is \<open>n * 2^(e - 52)\<close> with an integer \<open>n\<close>
  below \<open>2^53\<close> in magnitude and \<open>e\<close> from -1022 to 1023. For a rational \<open>x\<close> other
  than zero, \<open>e\<close> is the integer with \<open>2^e \<le> |x| < 2^(e+1)\<close>, not below -1022 (where the
  subnormal numbers are); \<open>|x|\<close> in units of \<open>2^(e - 52)\<close> is rounded to the nearest
  integer, a tie to the even one; a result of \<open>2^1024\<close> or more is an infinity.
\<close>

fun bit_length :: "nat \<Rightarrow> nat" where
  "bit_length n = (if n = 0 then 0 else Suc (bit_length (n div 2)))"

declare bit_length.simps [simp del]

definition floor_log2 :: "rat \<Rightarrow> int" where
  "floor_log2 x =
     (let (a, b) = quotient_of x;
          k = int (bit_length (nat a)) - int (bit_length (nat b))
      in if 2 powi k \<le> x then k else k - 1)"

definition round_even :: "rat \<Rightarrow> int" where
  "round_even q =
     (let f = \<lfloor>q\<rfloor>; d = q - of_int f
      in if d < 1 / 2 then f
         else if 1 / 2 < d then f + 1
         else if even f then f else f + 1)"

definition round_double :: "rat \<Rightarrow> jsnum" where
  "round_double x =
     (if x = 0 then Fin 0
      else
        (let e = max (floor_log2 \<bar>x\<bar>) (- 1022);
             u = 2 powi (e - 52);
             y = of_int (round_even (\<bar>x\<bar> / u)) * u
         in if 2 powi 1024 \<le> y then (if x < 0 then NegInf else PosInf)
            else Fin (if x < 0 then - y else y)))"

text \<open>
  \<^verbatim>\<open>parseFloat(s)\<close>: white space, an optional sign, then the longest prefix that is a
  decimal literal: \<^verbatim>\<open>Infinity\<close>, or digits with an optional fraction, or a fraction
  alone, each with an optional exponent (\<^verbatim>\<open>e\<close> or \<^verbatim>\<open>E\<close>, an optional sign, digits).
  NaN when there is no literal. The value is the double nearest to the decimal number
  \<open>m * 10^ex\<close>, where \<open>m\<close> is what the digits before and after the point denote. The
  language lets the implementation choose between two roundings when more than 20 digits
  are significant; the model gives no answer (\<open>None\<close>) when \<open>m\<close> has more than 20 digits.
\<close>

definition parseFloat :: "string \<Rightarrow> jsnum option" where
  "parseFloat s =
     (let (neg, r) = split_sign (dropWhile is_space s) in
      if take 8 r = ''Infinity'' then Some (if neg then NegInf else PosInf)
      else
        (let ip = takeWhile is_digit r;
             r1 = dropWhile is_digit r;
             fp = (if take 1 r1 = ''.'' then takeWhile is_digit (drop 1 r1) else []);
             r2 = (if take 1 r1 = ''.'' then dropWhile is_digit (drop 1 r1) else r1);
             (eneg, r3) = split_sign (drop 1 r2);
             ed = (if take 1 r2 = ''e'' \<or> take 1 r2 = ''E'' then takeWhile is_digit r3 else []);
             m = digits_value 0 (ip @ fp);
             ex = (if eneg then - int (digits_value 0 ed) else int (digits_value 0 ed))
                    - int (length fp)
         in if ip = [] \<and> fp = [] then Some NaN
            else if 100000000000000000000 \<le> m then None
            else Some (round_double ((if neg then - 1 else 1) * of_nat m * 10 powi ex))))"

text \<open>
  The product of a number with a unit multiplier (a positive integer): the exact product,
  rounded to the nearest double.
\<close>

fun num_times :: "jsnum \<Rightarrow> rat \<Rightarrow> jsnum" where
  "num_times NaN m = NaN"
| "num_times NegInf m = NegInf"
| "num_times PosInf m = PosInf"
| "num_times (Fin r) m = round_double (r * m)"

text \<open>
  \<^verbatim>\<open>parseInt(x)\<close> on a number converts it to a string first. NaN and the infinities
  print without a leading digit (NaN); a number printed in positional notation (zero, or
  magnitude from \<open>10^-6\<close> up to but not including \<open>10^21\<close>) yields its integer part;
  other magnitudes print in exponent notation and the model gives no answer.
\<close>

definition trunc_zero :: "rat \<Rightarrow> rat" where
  "trunc_zero r = (if r < 0 then - of_int \<lfloor>- r\<rfloor> else of_int \<lfloor>r\<rfloor>)"

fun parseInt_num :: "jsnum \<Rightarrow> jsnum option" where
  "parseInt_num (Fin r) =
     (if r = 0 \<or> (1 / 1000000 \<le> \<bar>r\<bar> \<and> \<bar>r\<bar> < 1000000000000000000000)
      then Some (Fin (trunc_zero r)) else None)"
| "parseInt_num _ = Some NaN"

text \<open>\<^verbatim>\<open>parseInt(v, 10)\<close> on a value; no answer for arrays and objects.\<close>

fun parseInt :: "jsval \<Rightarrow> jsnum option" where
  "parseInt (Str s) = parseInt_str s"
| "parseInt (Num n) = parseInt_num n"
| "parseInt Undefined = Some NaN"
| "parseInt Null = Some NaN"
| "parseInt (Bool b) = Some NaN"
| "parseInt (Arr xs) = None"
| "parseInt (Obj kvs) = None"

text \<open>The decimal digits of a natural number.\<close>

fun digits_of :: "nat \<Rightarrow> string" where
  "digits_of n =
     (if n < 10 then [digit_char n]
      else digits_of (n div 10) @ [digit_char (n mod 10)])"

declare digits_of.simps [simp del]

text \<open>
  ToString, as string concatenation applies it. Integers below \<open>10^21\<close> print as their
  decimal digits; the model gives no answer for other finite numbers, arrays and objects.
\<close>

fun num_to_string :: "jsnum \<Rightarrow> string option" where
  "num_to_string NaN = Some ''NaN''"
| "num_to_string PosInf = Some ''Infinity''"
| "num_to_string NegInf = Some ''-Infinity''"
| "num_to_string (Fin r) =
     (if of_int \<lfloor>r\<rfloor> = r \<and> \<bar>r\<bar> < 1000000000000000000000
      then Some ((if r < 0 then ''-'' else []) @ digits_of (nat \<bar>\<lfloor>r\<rfloor>\<bar>))
      else None)"

fun to_string :: "jsval \<Rightarrow> string option" where
  "to_string Undefined = Some ''undefined''"
| "to_string Null = Some ''null''"
| "to_string (Bool b) = Some (if b then ''true'' else ''false'')"
| "to_string (Num n) = num_to_string n"
| "to_string (Str s) = Some s"
| "to_string (Arr xs) = None"
| "to_string (Obj kvs) = None"

section \<open>JSON\<close>

text \<open>
  \<^verbatim>\<open>JSON.stringify\<close> and \<^verbatim>\<open>JSON.parse\<close> belong to the language, not to the
  repository. A JSON text is modelled by the document it denotes (\<open>json\<close>), so the
  concrete syntax (escapes, number formatting) is not part of the model; what the two
  functions do to values is: \<^verbatim>\<open>stringify\<close> drops properties whose value is
  \<^verbatim>\<open>undefined\<close>, writes \<^verbatim>\<open>undefined\<close> array elements, NaN and the infinities as
  \<^verbatim>\<open>null\<close>, and yields \<^verbatim>\<open>undefined\<close> (\<open>None\<close>) for \<^verbatim>\<open>undefined\<close> itself;
  \<^verbatim>\<open>parse\<close> defines the properties of an object from left to right, so a repeated key
  keeps its first place and its last value.
\<close>

datatype json =
    JNull
  | JBool bool
  | JNum rat
  | JStr string
  | JArr "json list"
  | JObj "(string \<times> json) list"

fun JSON_stringify :: "jsval \<Rightarrow> json option"
  and stringify_elems :: "jsval list \<Rightarrow> json list"
  and stringify_props :: "(string \<times> jsval) list \<Rightarrow> (string \<times> json) list" where
  "JSON_stringify Undefined = None"
| "JSON_stringify Null = Some JNull"
| "JSON_stringify (Bool b) = Some (JBool b)"
| "JSON_stringify (Num n) = Some (case n of Fin r \<Rightarrow> JNum r | _ \<Rightarrow> JNull)"
| "JSON_stringify (Str s) = Some (JStr s)"
| "JSON_stringify (Arr xs) = Some (JArr (stringify_elems xs))"
| "JSON_stringify (Obj kvs) = Some (JObj (stringify_props kvs))"
| "stringify_elems [] = []"
| "stringify_elems (x # xs) =
     (case JSON_stringify x of None \<Rightarrow> JNull | Some t \<Rightarrow> t) # stringify_elems xs"
| "stringify_props [] = []"
| "stringify_props ((k, v) # kvs) =
     (case JSON_stringify v of
        None \<Rightarrow> stringify_props kvs
      | Some t \<Rightarrow> (k, t) # stringify_props kvs)"

fun JSON_parse :: "json \<Rightarrow> jsval"
  and parse_elems :: "json list \<Rightarrow> jsval list"
  and parse_props :: "(string \<times> jsval) list \<Rightarrow> (string \<times> json) list \<Rightarrow> (string \<times> jsval) list" where
  "JSON_parse JNull = Null"
| "JSON_parse (JBool b) = Bool b"
| "JSON_parse (JNum r) = Num (Fin r)"
| "JSON_parse (JStr s) = Str s"
| "JSON_parse (JArr ts) = Arr (parse_elems ts)"
| "JSON_parse (JObj kts) = Obj (parse_props [] kts)"
| "parse_elems [] = []"
| "parse_elems (t # ts) = JSON_parse t # parse_elems ts"
| "parse_props acc [] = acc"
| "parse_props acc ((k, t) # kts) = parse_props (set_prop k (JSON_parse t) acc) kts"

text \<open>
  The values JSON holds without loss: no \<^verbatim>\<open>undefined\<close>, no NaN, no infinity, and
  (as for every JavaScript object) no property name twice in one object.
\<close>

fun json_safe :: "jsval \<Rightarrow> bool"
  and json_safe_elems :: "jsval list \<Rightarrow> bool"
  and json_safe_props :: "(string \<times> jsval) list \<Rightarrow> bool" where
  "json_safe Undefined = False"
| "json_safe Null = True"
| "json_safe (Bool b) = True"
| "json_safe (Num n) = (case n of Fin r \<Rightarrow> True | _ \<Rightarrow> False)"
| "json_safe (Str s) = True"
| "json_safe (Arr xs) = json_safe_elems xs"
| "json_safe (Obj kvs) = (distinct (map fst kvs) \<and> json_safe_props kvs)"
| "json_safe_elems [] = True"
| "json_safe_elems (x # xs) = (json_safe x \<and> json_safe_elems xs)"
| "json_safe_props [] = True"
| "json_safe_props ((k, v) # kvs) = (json_safe v \<and> json_safe_props kvs)"

section \<open>Jobs\<close>

text \<open>
  A call either returns, throws, or leaves the fragment of JavaScript that the model
  answers for (\<open>Unmodelled\<close>: one of the partial functions above gave no answer, and
  the model does not say what the program does).
  An \<^verbatim>\<open>Error\<close> carries its message; \<open>TypeError\<close> is what the runtime throws for a
  method call on a value without that method, a property read on \<^verbatim>\<open>null\<close> or
  \<^verbatim>\<open>undefined\<close>, and (the file is in strict mode) a property write on a primitive.
\<close>

datatype error = Error string | TypeError

datatype 'a completion = Returns 'a | Throws error | Unmodelled

text \<open>A promise, once settled.\<close>

datatype 'a settled = Fulfilled 'a | Rejected error

text \<open>
  The receiver of a method call. Every method of the class works on one job, so a method
  that ends in \<^verbatim>\<open>return this\<close> returns \<open>This\<close>, and the state of that object after
  the call is the job the model returns beside it.
\<close>

datatype objref = This

text \<open>
  The fields of a \<^verbatim>\<open>Job\<close> that the file reads and writes. \<open>jobId\<close> is the field
  \<^verbatim>\<open>id\<close>; \<open>options\<close> is always an object, held by its properties; \<open>count\<close> is
  \<open>None\<close> when the object has no property \<^verbatim>\<open>count\<close>. The field \<^verbatim>\<open>queue\<close> is not
  part of the record: the queue is passed to the methods that use it.
\<close>

record job =
  jobId :: jsval
  progress :: jsval
  data :: jsval
  options :: "(string \<times> jsval) list"
  status :: jsval
  count :: "jsval option"

text \<open>Reading \<^verbatim>\<open>this.count\<close>.\<close>

definition this_count :: "job \<Rightarrow> jsval" where
  "this_count j = (case count j of None \<Rightarrow> Undefined | Some c \<Rightarrow> c)"

text \<open>
  The constructor (lines 9-20). \<^verbatim>\<open>Date.now()\<close> is the parameter \<open>now\<close>, here and
  below: the milliseconds since the epoch, a natural number. An \<^verbatim>\<open>options\<close>
  argument that is a truthy primitive makes the first property write throw; an array
  with named properties is not a value of the model.
\<close>

definition Job_new :: "nat \<Rightarrow> jsval \<Rightarrow> jsval \<Rightarrow> jsval \<Rightarrow> job completion" where
  "Job_new now jid d opts =
     (case js_or opts (Obj []) of
        Obj kvs \<Rightarrow>
          (let o1 = set_prop ''timestamp''
                      (js_or (get_prop kvs ''timestamp'') (Num (Fin (of_nat now)))) kvs;
               o2 = set_prop ''stacktraces''
                      (js_or (get_prop o1 ''stacktraces'') (Arr [])) o1
           in Returns \<lparr>jobId = jid, progress = Num (Fin 0), data = js_or d (Obj []),
                       options = o2, status = Str ''created'', count = None\<rparr>)
      | Arr xs \<Rightarrow> Unmodelled
      | _ \<Rightarrow> Throws TypeError)"

text \<open>
  Reading one of the properties \<^verbatim>\<open>data\<close>, \<^verbatim>\<open>options\<close>, \<^verbatim>\<open>status\<close>, \<^verbatim>\<open>count\<close> of
  a parsed value other than \<^verbatim>\<open>null\<close>: the property of an object, \<^verbatim>\<open>undefined\<close> on
  every other value.
\<close>

fun field :: "jsval \<Rightarrow> string \<Rightarrow> jsval" where
  "field (Obj kvs) k = get_prop kvs k"
| "field _ k = Undefined"

text \<open>
  \<^verbatim>\<open>Job.fromData\<close> (lines 33-42). The argument is a JSON text, as the comment in the
  source says; \<^verbatim>\<open>data.data\<close> throws when the text is \<^verbatim>\<open>null\<close>. The queue argument
  is not kept (see \<open>job\<close>).
\<close>

definition fromData :: "nat \<Rightarrow> jsval \<Rightarrow> json \<Rightarrow> job completion" where
  "fromData now jid text =
     (let d = JSON_parse text in
      case d of
        Null \<Rightarrow> Throws TypeError
      | _ \<Rightarrow>
          (case Job_new now jid (field d ''data'') (field d ''options'') of
             Throws e \<Rightarrow> Throws e
           | Unmodelled \<Rightarrow> Unmodelled
           | Returns j \<Rightarrow>
               (let j1 = j\<lparr>status := field d ''status''\<rparr>
                in Returns (if truthy (field d ''count'')
                            then j1\<lparr>count := Some (field d ''count'')\<rparr> else j1))))"

text \<open>
  \<^verbatim>\<open>toData\<close> (lines 44-56): the object \<^verbatim>\<open>{data, options, status}\<close>, with
  \<^verbatim>\<open>count\<close> when \<^verbatim>\<open>this.count\<close> is truthy, as JSON.
\<close>

definition toData_object :: "job \<Rightarrow> (string \<times> jsval) list" where
  "toData_object j =
     (let d = [(''data'', data j), (''options'', Obj (options j)), (''status'', status j)]
      in if truthy (this_count j) then set_prop ''count'' (this_count j) d else d)"

definition toData :: "job \<Rightarrow> json" where
  "toData j = JObj (stringify_props (toData_object j))"

text \<open>The keys of an encoded record, in order.\<close>

fun json_keys :: "json \<Rightarrow> string list" where
  "json_keys (JObj kts) = map fst kts"
| "json_keys _ = []"

section \<open>The queue, as the job sees it\<close>

text \<open>
  The queue class is not part of \<^verbatim>\<open>lib/job.js\<close>. A job reads four of its settings by
  truthiness, calls \<^verbatim>\<open>toKey\<close> (taken as a parameter), and adds itself to the map
  \<^verbatim>\<open>jobs\<close>.
\<close>

record settings =
  removeOnSuccess :: jsval
  removeOnFailure :: jsval
  storeJobs :: jsval
  activateDelayedJobs :: jsval

record queue =
  settings :: settings
  toKey :: "string \<Rightarrow> string"
  jobs :: "jsval \<Rightarrow> job option"

section \<open>Configuration setters\<close>

text \<open>
  A setter takes the job and returns what the call does together with the job as the call
  leaves it, also when the call throws.
\<close>

text \<open>\<^verbatim>\<open>id.substr(0,2) === 'r:'\<close>: only a string has the method.\<close>

fun substr_0_2 :: "jsval \<Rightarrow> string completion" where
  "substr_0_2 (Str s) = Returns (take 2 s)"
| "substr_0_2 _ = Throws TypeError"

text \<open>\<^verbatim>\<open>setId\<close> (lines 95-101).\<close>

definition setId :: "job \<Rightarrow> jsval \<Rightarrow> objref completion \<times> job" where
  "setId j ident =
     (case substr_0_2 ident of
        Throws e \<Rightarrow> (Throws e, j)
      | Unmodelled \<Rightarrow> (Unmodelled, j)
      | Returns p \<Rightarrow>
          if p = ''r:''
          then (Throws (Error ''IDs starting with r: are reserved for recurring jobs.''), j)
          else (Returns This, j\<lparr>jobId := ident\<rparr>))"

text \<open>The unit table of \<^verbatim>\<open>setInterval\<close> (line 105) and \<^verbatim>\<open>interval.slice(-1)\<close>.\<close>

definition multiplier :: "(string \<times> rat) list" where
  "multiplier = [(''s'', 1000), (''m'', 60000), (''h'', 3600000), (''d'', 86400000)]"

definition slice_last :: "string \<Rightarrow> string" where
  "slice_last s = (if s = [] then [] else [last s])"

text \<open>
  Lines 105-110: the interval of a string argument,
  \<^verbatim>\<open>parseInt(parseFloat(interval) * multiplier[interval.slice(-1)])\<close>.
\<close>

definition string_interval :: "string \<Rightarrow> jsval completion" where
  "string_interval s =
     (case map_of multiplier (slice_last s) of
        None \<Rightarrow> Throws (Error ''only valid suffixes are s, m, h, and d.'')
      | Some m \<Rightarrow>
          (case parseFloat s of
             None \<Rightarrow> Unmodelled
           | Some x \<Rightarrow>
               (case parseInt_num (num_times x m) of
                  None \<Rightarrow> Unmodelled
                | Some z \<Rightarrow> Returns (Num z))))"

text \<open>
  Lines 104-114: the interval in milliseconds that \<^verbatim>\<open>setInterval\<close> goes on with, or
  the error of its validation.
\<close>

fun less_eq_zero :: "jsval \<Rightarrow> bool" where
  "less_eq_zero (Num (Fin r)) = (r \<le> 0)"
| "less_eq_zero (Num NegInf) = True"
| "less_eq_zero _ = False"

definition interval_millis :: "jsval \<Rightarrow> jsval completion" where
  "interval_millis interval =
     (case (case interval of Str s \<Rightarrow> string_interval s | _ \<Rightarrow> Returns interval) of
        Throws e \<Rightarrow> Throws e
      | Unmodelled \<Rightarrow> Unmodelled
      | Returns iv \<Rightarrow>
          if \<not> isSafeInteger iv \<or> less_eq_zero iv
          then Throws (Error ''interval must be a positive integer'')
          else Returns iv)"

text \<open>
  \<^verbatim>\<open>this.id.indexOf(':') >= 0\<close>: a string has the character, an array has the string
  \<^verbatim>\<open>':'\<close> as an element; other values have no such method.
\<close>

fun has_colon :: "jsval \<Rightarrow> bool completion" where
  "has_colon (Str s) = Returns (CHR '':'' \<in> set s)"
| "has_colon (Arr xs) = Returns (Str '':'' \<in> set xs)"
| "has_colon _ = Throws TypeError"

text \<open>\<^verbatim>\<open>setInterval\<close> (lines 103-126), with \<^verbatim>\<open>Date.now()\<close> as \<open>now\<close>.\<close>

definition setInterval :: "queue \<Rightarrow> nat \<Rightarrow> job \<Rightarrow> jsval \<Rightarrow> objref completion \<times> job" where
  "setInterval q now j interval =
     (case interval_millis interval of
        Throws e \<Rightarrow> (Throws e, j)
      | Unmodelled \<Rightarrow> (Unmodelled, j)
      | Returns iv \<Rightarrow>
          if truthy (removeOnSuccess (settings q)) \<or> truthy (removeOnFailure (settings q))
          then (Throws (Error ''Recurring jobs can not be removed OnSuccess/OnFailure.''), j)
          else
            (let j1 = j\<lparr>jobId := js_or (jobId j) (Str [])\<rparr> in
             case has_colon (jobId j1) of
               Throws e \<Rightarrow> (Throws e, j1)
             | Unmodelled \<Rightarrow> (Unmodelled, j1)
             | Returns found \<Rightarrow>
                 if found then (Throws (Error ''ID can not have a colon''), j1)
                 else
                   (case (to_string iv, to_string (jobId j1)) of
                      (Some a, Some b) \<Rightarrow>
                        (let j2 = j1\<lparr>jobId := Str (''r:'' @ a @ '':'' @ b)\<rparr>;
                             delay = js_or (get_prop (options j2) ''delay'')
                                       (Num (Fin (of_nat now + 1)))
                         in (Returns This, j2\<lparr>options := set_prop ''delay'' delay (options j2)\<rparr>))
                    | _ \<Rightarrow> (Unmodelled, j1))))"

text \<open>\<^verbatim>\<open>retries\<close> (lines 128-134).\<close>

definition retries :: "job \<Rightarrow> jsval \<Rightarrow> objref completion \<times> job" where
  "retries j n =
     (case less_zero n of
        None \<Rightarrow> (Unmodelled, j)
      | Some True \<Rightarrow> (Throws (Error ''Retries cannot be negative''), j)
      | Some False \<Rightarrow> (Returns This, j\<lparr>options := set_prop ''retries'' n (options j)\<rparr>))"

text \<open>
  The argument of \<^verbatim>\<open>delayUntil\<close>: an object with a method \<^verbatim>\<open>getTime\<close> (a
  \<^verbatim>\<open>Date\<close>), given by the number the method returns, or any other value.
\<close>

datatype instant = DateLike jsnum | Plain jsval

text \<open>Lines 138-142: the timestamp taken from the argument.\<close>

fun timestamp_of :: "instant \<Rightarrow> jsnum option" where
  "timestamp_of (DateLike t) = Some t"
| "timestamp_of (Plain v) = parseInt v"

text \<open>\<^verbatim>\<open>delayUntil\<close> (lines 136-150), with \<^verbatim>\<open>Date.now()\<close> as \<open>now\<close>.\<close>

definition delayUntil :: "nat \<Rightarrow> job \<Rightarrow> instant \<Rightarrow> objref completion \<times> job" where
  "delayUntil now j timestamp =
     (case timestamp_of timestamp of
        None \<Rightarrow> (Unmodelled, j)
      | Some ts \<Rightarrow>
          if ts = NaN \<or> num_less ts 0
          then (Throws (Error ''invalid delay timestamp''), j)
          else if num_greater ts (of_nat now)
          then (Returns This, j\<lparr>options := set_prop ''delay'' (Num ts) (options j)\<rparr>)
          else (Returns This, j))"

text \<open>\<^verbatim>\<open>timeout\<close> (lines 152-158).\<close>

definition timeout :: "job \<Rightarrow> jsval \<Rightarrow> objref completion \<times> job" where
  "timeout j ms =
     (case less_zero ms of
        None \<Rightarrow> (Unmodelled, j)
      | Some True \<Rightarrow> (Throws (Error ''Timeout cannot be negative''), j)
      | Some False \<Rightarrow> (Returns This, j\<lparr>options := set_prop ''timeout'' ms (options j)\<rparr>))"

text \<open>
  \<^verbatim>\<open>backoff\<close> (lines 160-172). The registry \<^verbatim>\<open>strategies\<close> of
  \<^verbatim>\<open>lib/backoff.js\<close> is taken as a parameter: the names it has.
\<close>

fun strategies_has :: "string list \<Rightarrow> jsval \<Rightarrow> bool" where
  "strategies_has names (Str s) = (s \<in> set names)"
| "strategies_has names _ = False"

definition backoff :: "string list \<Rightarrow> job \<Rightarrow> jsval \<Rightarrow> jsval \<Rightarrow> objref completion \<times> job" where
  "backoff strategies j strategy delay =
     (if \<not> strategies_has strategies strategy
      then (Throws (Error ''unknown strategy''), j)
      else if \<not> isSafeInteger delay \<or> less_eq_zero delay
      then (Throws (Error ''delay must be a positive integer''), j)
      else (Returns This,
            j\<lparr>options := set_prop ''backoff''
                  (Obj [(''strategy'', strategy), (''delay'', delay)]) (options j)\<rparr>))"

section \<open>Saving and reporting progress\<close>

text \<open>
  What a method asks of the world outside the job: a script run by the store
  (\<^verbatim>\<open>queue._evalScript(name, numKeys, ...)\<close>), a wake-up of the delayed-job timer
  (\<^verbatim>\<open>queue._delayedTimer.schedule\<close>), a message published on a channel
  (\<^verbatim>\<open>client.publish\<close>). An argument of a script is a value or a JSON text.

  The methods are asynchronous. The model runs a method to the end of its promise chain:
  the outcome of each external request is a parameter (the promise it settles to), and
  the result lists the requests made, in order, with the promise the method returns, as
  settled. The optional callback \<^verbatim>\<open>cb\<close> is left out.
\<close>

datatype arg = Val jsval | Text json

datatype call =
    EvalScript string nat "arg list"
  | Schedule jsval
  | Publish string json

text \<open>
  \<^verbatim>\<open>save\<close> (lines 58-93). \<open>reply\<close> is what the promise of \<^verbatim>\<open>_evalScript\<close>
  settles to.
\<close>

definition save ::
  "queue \<Rightarrow> job \<Rightarrow> jsval settled \<Rightarrow> call list \<times> objref settled completion \<times> job \<times> queue" where
  "save q j reply =
     (let (calls, promise) =
        (if truthy (get_prop (options j) ''delay'') then
           (let script = EvalScript ''addDelayedJob'' 4
                  [Val (Str (toKey q ''id'')), Val (Str (toKey q ''jobs'')),
                   Val (Str (toKey q ''delayed'')), Val (Str (toKey q ''earlierDelayed'')),
                   Val (js_or (jobId j) (Str [])), Text (toData j),
                   Val (get_prop (options j) ''delay'')]
            in if truthy (activateDelayedJobs (settings q)) then
                 (case reply of
                    Rejected e \<Rightarrow> ([script], Rejected e)
                  | Fulfilled jid \<Rightarrow>
                      (if truthy jid
                       then [script, Schedule (get_prop (options j) ''delay'')]
                       else [script],
                       Fulfilled jid))
               else ([script], reply))
         else
           ([EvalScript ''addJob'' 3
               [Val (Str (toKey q ''id'')), Val (Str (toKey q ''jobs'')),
                Val (Str (toKey q ''waiting'')),
                Val (js_or (jobId j) (Str [])), Text (toData j)]],
            reply))
      in case promise of
           Rejected e \<Rightarrow> (calls, Returns (Rejected e), j, q)
         | Fulfilled jid \<Rightarrow>
             (let j' = j\<lparr>jobId := jid\<rparr>
              in (calls, Returns (Fulfilled This), j',
                  if truthy jid \<and> truthy (storeJobs (settings q))
                  then q\<lparr>jobs := (jobs q)(jid \<mapsto> j')\<rparr> else q)))"

text \<open>The scripts among the requests made.\<close>

fun is_script :: "call \<Rightarrow> bool" where
  "is_script (EvalScript name n args) = True"
| "is_script _ = False"

text \<open>
  \<^verbatim>\<open>reportProgress\<close> (lines 174-195). \<open>client\<close> is what the promise of
  \<^verbatim>\<open>queue._commandable()\<close> settles to (the connection, or the error of a queue that has
  none), \<open>published\<close> what the promise of the publish request settles to.
\<close>

datatype client = Client

definition reportProgress ::
  "queue \<Rightarrow> job \<Rightarrow> jsval \<Rightarrow> client settled \<Rightarrow> jsval settled
     \<Rightarrow> call list \<times> jsval settled completion \<times> job" where
  "reportProgress q j prog client published =
     (if prog \<noteq> Null \<and> prog \<noteq> Undefined then
        (let j' = j\<lparr>progress := prog\<rparr> in
         case client of
           Rejected e \<Rightarrow> ([], Returns (Rejected e), j')
         | Fulfilled c \<Rightarrow>
             ([Publish (toKey q ''events'')
                 (JObj (stringify_props
                    [(''id'', jobId j'), (''event'', Str ''progress''), (''data'', prog)]))],
              Returns published, j'))
      else ([], Returns (Rejected (Error ''Progress cannot be empty'')), j))"

section \<open>Valid jobs\<close>

text \<open>
  The jobs whose encoding loses nothing: payload, options, status and count are values
  JSON holds; the payload is truthy and the options have a truthy \<^verbatim>\<open>timestamp\<close> and
  \<^verbatim>\<open>stacktraces\<close>, as the constructor leaves them; a \<^verbatim>\<open>count\<close>, when the job has
  one, is truthy (the number of retries so far, at least one).
\<close>

definition valid_job :: "job \<Rightarrow> bool" where
  "valid_job j =
     (truthy (data j) \<and> json_safe (data j)
      \<and> json_safe (Obj (options j))
      \<and> truthy (get_prop (options j) ''timestamp'')
      \<and> truthy (get_prop (options j) ''stacktraces'')
      \<and> json_safe (status j)
      \<and> (case count j of None \<Rightarrow> True | Some c \<Rightarrow> truthy c \<and> json_safe c))"

text \<open>
  The jobs whose \<^verbatim>\<open>options.delay\<close>, when they have one, is truthy. A delay is the
  instant at which the job is to run: \<^verbatim>\<open>delayUntil\<close> writes a timestamp after the
  clock, \<^verbatim>\<open>setInterval\<close> the clock plus 1, and nothing else in the file writes the
  option.
\<close>

definition delay_unset_or_instant :: "job \<Rightarrow> bool" where
  "delay_unset_or_instant j =
     (map_of (options j) ''delay'' = None \<or> truthy (get_prop (options j) ''delay''))"

section \<open>Examples\<close>

text \<open>
  A job as the constructor leaves it, and a queue that keeps the jobs it saves, removes
  none and runs no delayed-job timer.
\<close>

definition example_job :: job where
  "example_job =
     \<lparr>jobId = Null, progress = Num (Fin 0), data = Obj [(''x'', Num (Fin 1))],
      options = [(''timestamp'', Num (Fin 1700000000000)), (''stacktraces'', Arr [])],
      status = Str ''created'', count = None\<rparr>"

definition example_queue :: queue where
  "example_queue =
     \<lparr>settings = \<lparr>removeOnSuccess = Bool False, removeOnFailure = Bool False,
                   storeJobs = Bool True, activateDelayedJobs = Bool False\<rparr>,
      toKey = (\<lambda>s. ''bq:test:'' @ s),
      jobs = Map.empty\<rparr>"

section \<open>Round trip through JSON\<close>

lemma set_prop_fresh:
  "k \<notin> fst ` set acc \<Longrightarrow> set_prop k v acc = acc @ [(k, v)]"
  by (induction acc) (auto simp: set_prop_def)

lemma stringify_safe_some:
  "json_safe v \<Longrightarrow> \<exists>t. JSON_stringify v = Some t"
  by (cases v) auto

lemma stringify_props_keys:
  "json_safe_props kvs \<Longrightarrow> map fst (stringify_props kvs) = map fst kvs"
proof (induction kvs)
  case Nil
  then show ?case by simp
next
  case (Cons p kvs)
  obtain k v where p: "p = (k, v)" by (cases p)
  with Cons.prems obtain t where "JSON_stringify v = Some t"
    using stringify_safe_some by auto
  with Cons p show ?case by simp
qed

lemma json_round_trip_all:
  "json_safe v \<longrightarrow> (\<exists>t. JSON_stringify v = Some t \<and> JSON_parse t = v)"
  "json_safe_elems xs \<longrightarrow> parse_elems (stringify_elems xs) = xs"
  "json_safe_props kvs \<longrightarrow>
     (\<forall>acc. distinct (map fst acc @ map fst kvs) \<longrightarrow>
        parse_props acc (stringify_props kvs) = acc @ kvs)"
proof (induction v and xs and kvs rule: json_safe_json_safe_elems_json_safe_props.induct)
  case (4 n)
  then show ?case by (cases n) auto
next
  case (7 kvs)
  show ?case
  proof
    assume s: "json_safe (Obj kvs)"
    then have "parse_props [] (stringify_props kvs) = [] @ kvs"
      using 7 by simp
    then show "\<exists>t. JSON_stringify (Obj kvs) = Some t \<and> JSON_parse t = Obj kvs"
      by simp
  qed
next
  case (9 x xs)
  then show ?case by auto
next
  case (11 k v kvs)
  show ?case
  proof (intro impI allI)
    fix acc :: "(string \<times> jsval) list"
    assume s: "json_safe_props ((k, v) # kvs)"
      and d: "distinct (map fst acc @ map fst ((k, v) # kvs))"
    from s 11 obtain t where t: "JSON_stringify v = Some t" "JSON_parse t = v"
      by auto
    from d have fresh: "k \<notin> fst ` set acc" by auto
    from d have d': "distinct (map fst (acc @ [(k, v)]) @ map fst kvs)" by auto
    from s 11 d' have "parse_props (acc @ [(k, v)]) (stringify_props kvs) = (acc @ [(k, v)]) @ kvs"
      by simp
    with t fresh show "parse_props acc (stringify_props ((k, v) # kvs)) = acc @ (k, v) # kvs"
      by (simp add: set_prop_fresh)
  qed
qed auto

lemma json_round_trip:
  "json_safe v \<Longrightarrow> \<exists>t. JSON_stringify v = Some t \<and> JSON_parse t = v"
  using json_round_trip_all(1) [of v] by simp

lemma json_round_trip_props:
  "json_safe_props kvs \<Longrightarrow> distinct (map fst kvs) \<Longrightarrow>
   parse_props [] (stringify_props kvs) = kvs"
  using json_round_trip_all(3) [of kvs] by simp

section \<open>Encoding and decoding\<close>

lemma get_set_prop:
  "get_prop (set_prop k v kvs) k' = (if k' = k then v else get_prop kvs k')"
  by (simp add: get_prop_def set_prop_def update_conv')

lemma set_prop_same:
  "truthy (get_prop kvs k) \<Longrightarrow> set_prop k (get_prop kvs k) kvs = kvs"
  by (cases "map_of kvs k") (simp_all add: get_prop_def set_prop_def update_triv)

lemma Job_new_kept:
  assumes "truthy d" "truthy (get_prop kvs ''timestamp'')" "truthy (get_prop kvs ''stacktraces'')"
  shows "Job_new now i d (Obj kvs) =
           Returns \<lparr>jobId = i, progress = Num (Fin 0), data = d, options = kvs,
                    status = Str ''created'', count = None\<rparr>"
  using assms by (simp add: Job_new_def js_or_def set_prop_same)

lemma toData_object_safe:
  assumes "valid_job j"
  shows "json_safe_props (toData_object j) \<and> distinct (map fst (toData_object j))"
proof (cases "count j")
  case None
  with assms show ?thesis
    by (simp add: valid_job_def toData_object_def Let_def this_count_def)
next
  case (Some c)
  with assms show ?thesis
    by (simp add: valid_job_def toData_object_def Let_def this_count_def set_prop_def)
qed

lemma parse_toData:
  assumes "valid_job j"
  shows "JSON_parse (toData j) = Obj (toData_object j)"
  using toData_object_safe [OF assms] by (simp add: toData_def json_round_trip_props)

lemma stringify_props_keys_subset:
  "(k, t) \<in> set (stringify_props kvs) \<Longrightarrow> k \<in> fst ` set kvs"
  by (induction kvs) (force split: option.splits)+

text \<open>
  Claim C2. For every valid job, decoding the encoded record with the same id
  (\<^verbatim>\<open>fromData\<close> applied to the output of \<^verbatim>\<open>toData\<close>) returns a job with the same
  \<^verbatim>\<open>data\<close>, \<^verbatim>\<open>options\<close>, \<^verbatim>\<open>status\<close> and \<^verbatim>\<open>count\<close>: the job itself, but for
  \<^verbatim>\<open>progress\<close>, which a decoded job has at 0. A job without \<^verbatim>\<open>count\<close> encodes to a
  record with the three keys \<^verbatim>\<open>data\<close>, \<^verbatim>\<open>options\<close>, \<^verbatim>\<open>status\<close> and no other, and
  decodes to a job without \<^verbatim>\<open>count\<close>.
\<close>

theorem decode_encode:
  "valid_job j \<Longrightarrow>
     fromData now (jobId j) (toData j) = Returns (j\<lparr>progress := Num (Fin 0)\<rparr>)
     \<and> (count j = None \<longrightarrow> json_keys (toData j) = [''data'', ''options'', ''status''])"
proof
  assume v: "valid_job j"
  have p: "JSON_parse (toData j) = Obj (toData_object j)" by (rule parse_toData [OF v])
  have fd: "get_prop (toData_object j) ''data'' = data j"
    and fo: "get_prop (toData_object j) ''options'' = Obj (options j)"
    and fs: "get_prop (toData_object j) ''status'' = status j"
    and fc: "get_prop (toData_object j) ''count'' =
               (if truthy (this_count j) then this_count j else Undefined)"
    by (simp_all add: toData_object_def Let_def get_set_prop) (simp_all add: get_prop_def)
  from v have n: "Job_new now (jobId j) (data j) (Obj (options j)) =
      Returns \<lparr>jobId = jobId j, progress = Num (Fin 0), data = data j, options = options j,
               status = Str ''created'', count = None\<rparr>"
    by (intro Job_new_kept) (simp_all add: valid_job_def)
  from v have c: "(if truthy (this_count j) then Some (this_count j) else None) = count j"
    by (cases "count j") (simp_all add: valid_job_def this_count_def)
  show "fromData now (jobId j) (toData j) = Returns (j\<lparr>progress := Num (Fin 0)\<rparr>)"
  proof (cases "truthy (this_count j)")
    case True
    with c have "count j = Some (this_count j)" by simp
    with True show ?thesis
      by (simp add: fromData_def Let_def p fd fo fs fc n)
  next
    case False
    with c have "count j = None" by simp
    with False show ?thesis
      by (simp add: fromData_def Let_def p fd fo fs fc n)
  qed
next
  assume v: "valid_job j"
  show "count j = None \<longrightarrow> json_keys (toData j) = [''data'', ''options'', ''status'']"
  proof
    assume "count j = None"
    then have o: "toData_object j = [(''data'', data j), (''options'', Obj (options j)), (''status'', status j)]"
      by (simp add: toData_object_def Let_def this_count_def)
    from v have "json_safe_props (toData_object j)" by (simp add: toData_object_safe)
    then have "map fst (stringify_props (toData_object j)) = map fst (toData_object j)"
      by (rule stringify_props_keys)
    then show "json_keys (toData j) = [''data'', ''options'', ''status'']"
      by (simp add: toData_def o)
  qed
qed

theorem decode_encode_witness:
  "valid_job (example_job\<lparr>count := Some (Num (Fin 2))\<rparr>)
   \<and> fromData 5 Null (toData (example_job\<lparr>count := Some (Num (Fin 2))\<rparr>)) =
       Returns (example_job\<lparr>count := Some (Num (Fin 2))\<rparr>)
   \<and> valid_job example_job
   \<and> fromData 5 Null (toData example_job) = Returns example_job
   \<and> json_keys (toData example_job) = [''data'', ''options'', ''status'']"
proof -
  have v1: "valid_job (example_job\<lparr>count := Some (Num (Fin 2))\<rparr>)"
    by (simp add: valid_job_def example_job_def get_prop_def)
  have v2: "valid_job example_job"
    by (simp add: valid_job_def example_job_def get_prop_def)
  have i1: "jobId (example_job\<lparr>count := Some (Num (Fin 2))\<rparr>) = Null"
    and p1: "(example_job\<lparr>count := Some (Num (Fin 2))\<rparr>)\<lparr>progress := Num (Fin 0)\<rparr> =
              example_job\<lparr>count := Some (Num (Fin 2))\<rparr>"
    and i2: "jobId example_job = Null"
    and p2: "example_job\<lparr>progress := Num (Fin 0)\<rparr> = example_job"
    and c2: "count example_job = None"
    by (simp_all add: example_job_def)
  from decode_encode [OF v1, of 5] decode_encode [OF v2, of 5] v1 v2 show ?thesis
    by (simp add: i1 p1 i2 p2 c2)
qed


lemma parse_props_append:
  "parse_props acc (kts @ [(k, t)]) = set_prop k (JSON_parse t) (parse_props acc kts)"
  by (induction kts arbitrary: acc) auto

lemma parse_props_keys:
  "fst ` set (parse_props acc kts) = fst ` set acc \<union> fst ` set kts"
proof (induction kts arbitrary: acc)
  case Nil
  then show ?case by simp
next
  case (Cons p kts)
  obtain k t where p: "p = (k, t)" by (cases p)
  have "fst ` set (parse_props acc (p # kts)) =
          fst ` set (set_prop k (JSON_parse t) acc) \<union> fst ` set kts"
    by (simp add: p Cons.IH)
  also have "\<dots> = ({k} \<union> fst ` set acc) \<union> fst ` set kts"
    by (simp only: set_prop_def dom_update)
  finally show ?case by (auto simp: p)
qed

lemma get_prop_absent: "k \<notin> fst ` set kvs \<Longrightarrow> get_prop kvs k = Undefined"
  using map_of_eq_None_iff [of kvs k] by (simp add: get_prop_def)

lemma toData_falsy_count:
  "\<not> truthy c \<Longrightarrow> toData (j\<lparr>count := Some c\<rparr>) = toData (j\<lparr>count := None\<rparr>)"
  by (simp add: toData_def toData_object_def this_count_def)

lemma toData_no_count_key:
  assumes "\<not> truthy (this_count j)"
  shows "''count'' \<notin> set (json_keys (toData j))"
proof
  assume "''count'' \<in> set (json_keys (toData j))"
  then obtain t where "(''count'', t) \<in> set (stringify_props (toData_object j))"
    by (auto simp: toData_def)
  then have "''count'' \<in> fst ` set (toData_object j)"
    by (rule stringify_props_keys_subset)
  with assms show False by (simp add: toData_object_def)
qed

lemma fromData_count:
  assumes "fromData now i t = Returns j'"
  shows "count j' = (if truthy (field (JSON_parse t) ''count'')
                     then Some (field (JSON_parse t) ''count'') else None)"
proof -
  from assms obtain j0 where n: "Job_new now i (field (JSON_parse t) ''data'')
      (field (JSON_parse t) ''options'') = Returns j0"
    by (auto simp: fromData_def Let_def split: jsval.splits completion.splits)
  then have "count j0 = None"
    by (auto simp: Job_new_def Let_def split: jsval.splits)
  with assms n show ?thesis
    by (auto simp: fromData_def Let_def split: jsval.splits if_splits)
qed

lemma fromData_zero_count:
  assumes "''count'' \<notin> fst ` set kts"
  shows "fromData now i (JObj (kts @ [(''count'', JNum 0)])) = fromData now i (JObj kts)"
proof -
  from assms have "''count'' \<notin> fst ` set (parse_props [] kts)"
    by (simp add: parse_props_keys)
  then have "get_prop (parse_props [] kts) ''count'' = Undefined"
    by (rule get_prop_absent)
  then show ?thesis
    by (simp add: fromData_def Let_def parse_props_append get_set_prop split: completion.splits)
qed

text \<open>
  Claim C10. \<^verbatim>\<open>toData\<close> goes by the truthiness of \<^verbatim>\<open>count\<close>: a job whose
  \<^verbatim>\<open>count\<close> is falsy, 0 in particular, encodes to the record of the job without
  \<^verbatim>\<open>count\<close>, and that record has no key \<^verbatim>\<open>count\<close>. \<^verbatim>\<open>fromData\<close> gives the job
  a \<^verbatim>\<open>count\<close> exactly when the decoded value is truthy, so a record with
  \<^verbatim>\<open>"count": 0\<close> decodes to the job that the record without the key decodes to.
\<close>

theorem count_by_truthiness:
  "(\<not> truthy c \<longrightarrow> toData (j\<lparr>count := Some c\<rparr>) = toData (j\<lparr>count := None\<rparr>))
   \<and> toData (j\<lparr>count := Some (Num (Fin 0))\<rparr>) = toData (j\<lparr>count := None\<rparr>)
   \<and> (\<not> truthy (this_count j) \<longrightarrow> ''count'' \<notin> set (json_keys (toData j)))
   \<and> (fromData now i t = Returns j' \<longrightarrow>
        count j' = (if truthy (field (JSON_parse t) ''count'')
                    then Some (field (JSON_parse t) ''count'') else None))
   \<and> (''count'' \<notin> fst ` set kts \<longrightarrow>
        fromData now i (JObj (kts @ [(''count'', JNum 0)])) = fromData now i (JObj kts))"
  using toData_falsy_count [of c j] toData_falsy_count [of "Num (Fin 0)" j]
    toData_no_count_key [of j] fromData_count [of now i t j'] fromData_zero_count [of kts now i]
  by simp


theorem count_by_truthiness_witness:
  "toData (example_job\<lparr>count := Some (Num (Fin 0))\<rparr>) = toData example_job
   \<and> ''count'' \<notin> set (json_keys (toData (example_job\<lparr>count := Some (Num (Fin 0))\<rparr>)))
   \<and> (\<exists>j'. fromData 5 Null (JObj [(''status'', JStr ''failed''), (''count'', JNum 0)]) = Returns j'
          \<and> count j' = None)
   \<and> (\<exists>j'. fromData 5 Null (JObj [(''status'', JStr ''failed''), (''count'', JNum 3)]) = Returns j'
          \<and> count j' = Some (Num (Fin 3)))
   \<and> fromData 5 Null (JObj [(''status'', JStr ''failed''), (''count'', JNum 0)]) =
       fromData 5 Null (JObj [(''status'', JStr ''failed'')])"
proof -
  define decoded where "decoded =
    \<lparr>jobId = Null, progress = Num (Fin 0), data = Obj [],
     options = [(''timestamp'', Num (Fin 5)), (''stacktraces'', Arr [])],
     status = Str ''failed'', count = None\<rparr>"
  have d0: "fromData 5 Null (JObj [(''status'', JStr ''failed''), (''count'', JNum 0)]) =
      Returns decoded"
    by (simp add: fromData_def Job_new_def js_or_def get_prop_def set_prop_def decoded_def)
  have d3: "fromData 5 Null (JObj [(''status'', JStr ''failed''), (''count'', JNum 3)]) =
      Returns (decoded\<lparr>count := Some (Num (Fin 3))\<rparr>)"
    by (simp add: fromData_def Job_new_def js_or_def get_prop_def set_prop_def decoded_def)
  have n: "example_job\<lparr>count := None\<rparr> = example_job"
    by (simp add: example_job_def)
  have f: "\<not> truthy (this_count (example_job\<lparr>count := Some (Num (Fin 0))\<rparr>))"
    by (simp add: this_count_def)
  have k: "''count'' \<notin> fst ` set [(''status'', JStr ''failed'')]"
    by simp
  note th0 = count_by_truthiness [of "Num (Fin 0)" "example_job\<lparr>count := Some (Num (Fin 0))\<rparr>"
      5 Null "JObj [(''status'', JStr ''failed''), (''count'', JNum 0)]" decoded
      "[(''status'', JStr ''failed'')]"]
  note th3 = count_by_truthiness [of "Num (Fin 0)" example_job
      5 Null "JObj [(''status'', JStr ''failed''), (''count'', JNum 3)]"
      "decoded\<lparr>count := Some (Num (Fin 3))\<rparr>" "[(''status'', JStr ''failed'')]"]
  from th3 have a: "toData (example_job\<lparr>count := Some (Num (Fin 0))\<rparr>) = toData example_job"
    by (simp add: n)
  from th0 f have b: "''count'' \<notin> set (json_keys (toData (example_job\<lparr>count := Some (Num (Fin 0))\<rparr>)))"
    by blast
  from th0 d0 have c0: "count decoded = None"
    by (simp add: get_prop_def set_prop_def)
  from th3 d3 have c3: "count (decoded\<lparr>count := Some (Num (Fin 3))\<rparr>) = Some (Num (Fin 3))"
    by (simp add: get_prop_def set_prop_def)
  from th0 k have e: "fromData 5 Null (JObj [(''status'', JStr ''failed''), (''count'', JNum 0)]) =
       fromData 5 Null (JObj [(''status'', JStr ''failed'')])"
    by simp
  from a b d0 c0 d3 c3 e show ?thesis by blast
qed


section \<open>Failure leaves the job as it was\<close>

lemma js_or_truthy: "truthy a \<Longrightarrow> js_or a b = a"
  by (simp add: js_or_def)

lemma js_or_falsy: "\<not> truthy a \<Longrightarrow> js_or a b = b"
  by (simp add: js_or_def)

text \<open>
  \<^verbatim>\<open>setInterval\<close> assigns \<^verbatim>\<open>this.id = this.id || ''\<close> before its last check. The
  check passes on the empty string, so where it throws the assignment changed nothing.
\<close>

lemma has_colon_default:
  "has_colon (js_or v (Str [])) \<noteq> Returns False \<Longrightarrow> js_or v (Str []) = v"
  by (cases "truthy v") (simp_all add: js_or_def)

lemma setId_throws: "fst (setId j x) = Throws e \<Longrightarrow> snd (setId j x) = j"
  by (auto simp: setId_def split: completion.splits if_splits)

lemma setInterval_throws:
  assumes "fst (setInterval q now j x) = Throws e"
  shows "snd (setInterval q now j x) = j"
proof (cases "has_colon (js_or (jobId j) (Str [])) = Returns False")
  case True
  with assms show ?thesis
    by (auto simp: setInterval_def Let_def split: completion.splits if_splits option.splits)
next
  case False
  then have "js_or (jobId j) (Str []) = jobId j" by (rule has_colon_default)
  with assms show ?thesis
    by (auto simp: setInterval_def Let_def split: completion.splits if_splits option.splits)
qed

lemma retries_throws: "fst (retries j n) = Throws e \<Longrightarrow> snd (retries j n) = j"
  by (auto simp: retries_def split: option.splits bool.splits)

lemma timeout_throws: "fst (timeout j n) = Throws e \<Longrightarrow> snd (timeout j n) = j"
  by (auto simp: timeout_def split: option.splits bool.splits)

lemma delayUntil_throws:
  "fst (delayUntil now j t) = Throws e \<Longrightarrow> snd (delayUntil now j t) = j"
  by (auto simp: delayUntil_def split: option.splits if_splits)

lemma backoff_throws:
  "fst (backoff names j s d) = Throws e \<Longrightarrow> snd (backoff names j s d) = j"
  by (auto simp: backoff_def split: if_splits)

text \<open>
  Where the model answers: \<^verbatim>\<open>setId\<close> and \<^verbatim>\<open>backoff\<close> for every argument,
  \<^verbatim>\<open>retries\<close> and \<^verbatim>\<open>timeout\<close> for every argument but strings, arrays and objects,
  \<^verbatim>\<open>delayUntil\<close> wherever the timestamp is determined.
\<close>

lemma setId_modelled: "fst (setId j a) \<noteq> Unmodelled"
  by (cases a) (simp_all add: setId_def)

lemma backoff_modelled: "fst (backoff names j s n) \<noteq> Unmodelled"
  by (simp add: backoff_def)

lemma retries_modelled: "less_zero n \<noteq> None \<Longrightarrow> fst (retries j n) \<noteq> Unmodelled"
  by (auto simp: retries_def split: option.splits bool.splits)

lemma timeout_modelled: "less_zero ms \<noteq> None \<Longrightarrow> fst (timeout j ms) \<noteq> Unmodelled"
  by (auto simp: timeout_def split: option.splits bool.splits)

lemma delayUntil_modelled:
  "timestamp_of t \<noteq> None \<Longrightarrow> fst (delayUntil now j t) \<noteq> Unmodelled"
  by (auto simp: delayUntil_def split: option.splits)

lemma outcome_cases:
  assumes "\<And>e. fst (R :: objref completion \<times> job) = Throws e \<Longrightarrow> snd R = j"
  shows "fst R = Returns This \<or> fst R = Unmodelled \<or> ((\<exists>e. fst R = Throws e) \<and> snd R = j)"
proof (cases "fst R")
  case (Returns t)
  then show ?thesis by (cases t) simp
next
  case (Throws e)
  with assms show ?thesis by simp
next
  case Unmodelled
  then show ?thesis by simp
qed

text \<open>
  Claim C3. Each of the six setters \<^verbatim>\<open>setId\<close>, \<^verbatim>\<open>setInterval\<close>, \<^verbatim>\<open>retries\<close>,
  \<^verbatim>\<open>delayUntil\<close>, \<^verbatim>\<open>timeout\<close>, \<^verbatim>\<open>backoff\<close> is a function of the job, its
  arguments, the queue's settings and the clock alone: it makes no request to the store
  (its model has no list of requests to return). A call that returns, returns the job it
  was called on; a call that throws leaves every field of the job (\<^verbatim>\<open>id\<close>,
  \<^verbatim>\<open>options\<close>, \<^verbatim>\<open>data\<close>, \<^verbatim>\<open>status\<close>, \<^verbatim>\<open>progress\<close>, \<^verbatim>\<open>count\<close>) as it was
  before the call. (The third case of \<^verbatim>\<open>setInterval\<close>, \<^verbatim>\<open>retries\<close>,
  \<^verbatim>\<open>delayUntil\<close> and \<^verbatim>\<open>timeout\<close> is an argument outside the fragment of the
  language that the model answers for.)
\<close>

theorem setters_validate_or_leave_unchanged:
  "(fst (setId j a) = Returns This
      \<or> ((\<exists>e. fst (setId j a) = Throws e) \<and> snd (setId j a) = j))
   \<and> (fst (setInterval q now j b) = Returns This \<or> fst (setInterval q now j b) = Unmodelled
      \<or> ((\<exists>e. fst (setInterval q now j b) = Throws e) \<and> snd (setInterval q now j b) = j))
   \<and> (fst (retries j c) = Returns This \<or> fst (retries j c) = Unmodelled
      \<or> ((\<exists>e. fst (retries j c) = Throws e) \<and> snd (retries j c) = j))
   \<and> (fst (delayUntil now j d) = Returns This \<or> fst (delayUntil now j d) = Unmodelled
      \<or> ((\<exists>e. fst (delayUntil now j d) = Throws e) \<and> snd (delayUntil now j d) = j))
   \<and> (fst (timeout j ms) = Returns This \<or> fst (timeout j ms) = Unmodelled
      \<or> ((\<exists>e. fst (timeout j ms) = Throws e) \<and> snd (timeout j ms) = j))
   \<and> (fst (backoff names j s n) = Returns This
      \<or> ((\<exists>e. fst (backoff names j s n) = Throws e) \<and> snd (backoff names j s n) = j))"
proof (intro conjI)
  have "fst (setId j a) = Returns This \<or> fst (setId j a) = Unmodelled
      \<or> ((\<exists>e. fst (setId j a) = Throws e) \<and> snd (setId j a) = j)"
    by (rule outcome_cases) (rule setId_throws)
  then show "fst (setId j a) = Returns This
      \<or> ((\<exists>e. fst (setId j a) = Throws e) \<and> snd (setId j a) = j)"
    by (simp add: setId_modelled)
  show "fst (setInterval q now j b) = Returns This \<or> fst (setInterval q now j b) = Unmodelled
      \<or> ((\<exists>e. fst (setInterval q now j b) = Throws e) \<and> snd (setInterval q now j b) = j)"
    by (rule outcome_cases) (rule setInterval_throws)
  show "fst (retries j c) = Returns This \<or> fst (retries j c) = Unmodelled
      \<or> ((\<exists>e. fst (retries j c) = Throws e) \<and> snd (retries j c) = j)"
    by (rule outcome_cases) (rule retries_throws)
  show "fst (delayUntil now j d) = Returns This \<or> fst (delayUntil now j d) = Unmodelled
      \<or> ((\<exists>e. fst (delayUntil now j d) = Throws e) \<and> snd (delayUntil now j d) = j)"
    by (rule outcome_cases) (rule delayUntil_throws)
  show "fst (timeout j ms) = Returns This \<or> fst (timeout j ms) = Unmodelled
      \<or> ((\<exists>e. fst (timeout j ms) = Throws e) \<and> snd (timeout j ms) = j)"
    by (rule outcome_cases) (rule timeout_throws)
  have "fst (backoff names j s n) = Returns This \<or> fst (backoff names j s n) = Unmodelled
      \<or> ((\<exists>e. fst (backoff names j s n) = Throws e) \<and> snd (backoff names j s n) = j)"
    by (rule outcome_cases) (rule backoff_throws)
  then show "fst (backoff names j s n) = Returns This
      \<or> ((\<exists>e. fst (backoff names j s n) = Throws e) \<and> snd (backoff names j s n) = j)"
    by (simp add: backoff_modelled)
qed

theorem setters_validate_or_leave_unchanged_witness:
  "fst (setId example_job (Str ''r:1'')) =
      Throws (Error ''IDs starting with r: are reserved for recurring jobs.'')
   \<and> snd (setId example_job (Str ''r:1'')) = example_job
   \<and> fst (setInterval example_queue 5 example_job (Str ''5x'')) =
      Throws (Error ''only valid suffixes are s, m, h, and d.'')
   \<and> snd (setInterval example_queue 5 example_job (Str ''5x'')) = example_job
   \<and> fst (retries example_job (Num (Fin (- 1)))) = Throws (Error ''Retries cannot be negative'')
   \<and> snd (retries example_job (Num (Fin (- 1)))) = example_job
   \<and> fst (delayUntil 5 example_job (DateLike NaN)) = Throws (Error ''invalid delay timestamp'')
   \<and> snd (delayUntil 5 example_job (DateLike NaN)) = example_job
   \<and> fst (timeout example_job (Num (Fin (- 1)))) = Throws (Error ''Timeout cannot be negative'')
   \<and> snd (timeout example_job (Num (Fin (- 1)))) = example_job
   \<and> fst (backoff [''fixed''] example_job (Str ''fixed'') (Num (Fin 0))) =
      Throws (Error ''delay must be a positive integer'')
   \<and> snd (backoff [''fixed''] example_job (Str ''fixed'') (Num (Fin 0))) = example_job"
proof -
  note th = setters_validate_or_leave_unchanged [of example_job "Str ''r:1''" example_queue 5
      "Str ''5x''" "Num (Fin (- 1))" "DateLike NaN" "Num (Fin (- 1))" "[''fixed'']"
      "Str ''fixed''" "Num (Fin 0)"]
  have f1: "fst (setId example_job (Str ''r:1'')) =
      Throws (Error ''IDs starting with r: are reserved for recurring jobs.'')"
    by (simp add: setId_def)
  have f2: "fst (setInterval example_queue 5 example_job (Str ''5x'')) =
      Throws (Error ''only valid suffixes are s, m, h, and d.'')"
    by (simp add: setInterval_def interval_millis_def string_interval_def multiplier_def
        slice_last_def)
  have f3: "fst (retries example_job (Num (Fin (- 1)))) = Throws (Error ''Retries cannot be negative'')"
    by (simp add: retries_def)
  have f4: "fst (delayUntil 5 example_job (DateLike NaN)) = Throws (Error ''invalid delay timestamp'')"
    by (simp add: delayUntil_def)
  have f5: "fst (timeout example_job (Num (Fin (- 1)))) = Throws (Error ''Timeout cannot be negative'')"
    by (simp add: timeout_def)
  have f6: "fst (backoff [''fixed''] example_job (Str ''fixed'') (Num (Fin 0))) =
      Throws (Error ''delay must be a positive integer'')"
    by (simp add: backoff_def max_safe_def)
  from th have u1: "snd (setId example_job (Str ''r:1'')) = example_job"
    unfolding f1 by simp
  from th have u2: "snd (setInterval example_queue 5 example_job (Str ''5x'')) = example_job"
    unfolding f2 by simp
  from th have u3: "snd (retries example_job (Num (Fin (- 1)))) = example_job"
    unfolding f3 by simp
  from th have u4: "snd (delayUntil 5 example_job (DateLike NaN)) = example_job"
    unfolding f4 by simp
  from th have u5: "snd (timeout example_job (Num (Fin (- 1)))) = example_job"
    unfolding f5 by simp
  from th have u6: "snd (backoff [''fixed''] example_job (Str ''fixed'') (Num (Fin 0))) = example_job"
    unfolding f6 by simp
  show ?thesis
    by (intro conjI) (rule f1 u1 f2 u2 f3 u3 f4 u4 f5 u5 f6 u6)+
qed


section \<open>setId\<close>

text \<open>
  Claim C8. \<^verbatim>\<open>setId(id)\<close>, for a string \<open>id\<close>, throws exactly when the string starts
  with the two characters \<^verbatim>\<open>r:\<close>. For every other string it returns the job, whose
  \<^verbatim>\<open>id\<close> is then that string and whose other fields are as before; when it throws, the
  job is as before.
\<close>

theorem setId_reserved_prefix:
  "((\<exists>e. fst (setId j (Str s)) = Throws e) \<longleftrightarrow> take 2 s = ''r:'')
   \<and> (take 2 s \<noteq> ''r:'' \<longrightarrow> setId j (Str s) = (Returns This, j\<lparr>jobId := Str s\<rparr>))
   \<and> (take 2 s = ''r:'' \<longrightarrow> snd (setId j (Str s)) = j)"
  by (simp add: setId_def)

theorem setId_reserved_prefix_witness:
  "setId example_job (Str ''abc'') = (Returns This, example_job\<lparr>jobId := Str ''abc''\<rparr>)
   \<and> jobId (snd (setId example_job (Str ''abc''))) = Str ''abc''
   \<and> (\<exists>e. fst (setId example_job (Str ''r:abc'')) = Throws e)
   \<and> snd (setId example_job (Str ''r:abc'')) = example_job"
  using setId_reserved_prefix [of example_job "''abc''"]
    setId_reserved_prefix [of example_job "''r:abc''"]
  by simp

section \<open>save\<close>

lemma save_calls_falsy:
  "\<not> truthy (get_prop (options j) ''delay'') \<Longrightarrow>
   fst (save q j reply) =
     [EvalScript ''addJob'' 3
        [Val (Str (toKey q ''id'')), Val (Str (toKey q ''jobs'')), Val (Str (toKey q ''waiting'')),
         Val (js_or (jobId j) (Str [])), Text (toData j)]]"
  by (cases reply) (simp_all add: save_def Let_def)

lemma save_calls_truthy:
  "truthy (get_prop (options j) ''delay'') \<Longrightarrow>
   filter is_script (fst (save q j reply)) =
     [EvalScript ''addDelayedJob'' 4
        [Val (Str (toKey q ''id'')), Val (Str (toKey q ''jobs'')), Val (Str (toKey q ''delayed'')),
         Val (Str (toKey q ''earlierDelayed'')),
         Val (js_or (jobId j) (Str [])), Text (toData j), Val (get_prop (options j) ''delay'')]]"
  by (cases reply) (simp_all add: save_def Let_def)

lemma save_fulfilled:
  "snd (save q j (Fulfilled r)) =
     (Returns (Fulfilled This), j\<lparr>jobId := r\<rparr>,
      if truthy r \<and> truthy (storeJobs (settings q))
      then q\<lparr>jobs := (jobs q)(r \<mapsto> j\<lparr>jobId := r\<rparr>)\<rparr> else q)"
  by (simp add: save_def Let_def split: prod.splits)

lemma save_rejected:
  "snd (save q j (Rejected e)) = (Returns (Rejected e), j, q)"
  by (simp add: save_def Let_def split: prod.splits)

text \<open>
  \<^verbatim>\<open>save\<close> runs exactly one script, chosen by the truthiness of \<^verbatim>\<open>options.delay\<close>:
  \<^verbatim>\<open>addJob\<close> when it is falsy, \<^verbatim>\<open>addDelayedJob\<close> when it is truthy.
\<close>

lemma save_by_truthiness:
  "(\<not> truthy (get_prop (options j) ''delay'') \<longrightarrow>
      filter is_script (fst (save q j reply)) =
        [EvalScript ''addJob'' 3
           [Val (Str (toKey q ''id'')), Val (Str (toKey q ''jobs'')),
            Val (Str (toKey q ''waiting'')),
            Val (js_or (jobId j) (Str [])), Text (toData j)]])
   \<and> (truthy (get_prop (options j) ''delay'') \<longrightarrow>
      filter is_script (fst (save q j reply)) =
        [EvalScript ''addDelayedJob'' 4
           [Val (Str (toKey q ''id'')), Val (Str (toKey q ''jobs'')),
            Val (Str (toKey q ''delayed'')), Val (Str (toKey q ''earlierDelayed'')),
            Val (js_or (jobId j) (Str [])), Text (toData j),
            Val (get_prop (options j) ''delay'')]])"
  by (simp add: save_calls_falsy save_calls_truthy)

text \<open>
  Claim C1, as amended. When the script's promise is fulfilled, \<^verbatim>\<open>save\<close> overwrites
  the job's \<^verbatim>\<open>id\<close> with the script's result, whatever it is, and its promise is
  fulfilled with the job. When the result is falsy (the script reports that no job was
  created, as for a candidate id that the store already has), the \<^verbatim>\<open>id\<close> is that falsy
  result and the queue is as before: the job is not added to the map \<^verbatim>\<open>jobs\<close>. When the
  result is truthy it is not \<^verbatim>\<open>null\<close>, the \<^verbatim>\<open>id\<close> is that result, and the job is
  added to \<^verbatim>\<open>jobs\<close> under it if the queue stores jobs. Only when the script's promise
  is rejected are the job and the queue left as they were.
\<close>

theorem save_overwrites_id:
  "snd (save q j (Fulfilled r)) =
     (Returns (Fulfilled This), j\<lparr>jobId := r\<rparr>,
      if truthy r \<and> truthy (storeJobs (settings q))
      then q\<lparr>jobs := (jobs q)(r \<mapsto> j\<lparr>jobId := r\<rparr>)\<rparr> else q)
   \<and> (\<not> truthy r \<longrightarrow>
        jobId (fst (snd (snd (save q j (Fulfilled r))))) = r
        \<and> snd (snd (snd (save q j (Fulfilled r)))) = q)
   \<and> (truthy r \<longrightarrow> jobId (fst (snd (snd (save q j (Fulfilled r))))) = r \<and> r \<noteq> Null)
   \<and> snd (save q j (Rejected e)) = (Returns (Rejected e), j, q)"
  by (auto simp: save_fulfilled save_rejected)

theorem save_overwrites_id_witness:
  "snd (save example_queue (example_job\<lparr>jobId := Str ''a''\<rparr>) (Fulfilled Null)) =
     (Returns (Fulfilled This), example_job\<lparr>jobId := Null\<rparr>, example_queue)
   \<and> snd (save example_queue example_job (Fulfilled (Str ''7''))) =
     (Returns (Fulfilled This), example_job\<lparr>jobId := Str ''7''\<rparr>,
      example_queue\<lparr>jobs := (jobs example_queue)(Str ''7'' \<mapsto> example_job\<lparr>jobId := Str ''7''\<rparr>)\<rparr>)"
proof -
  have s: "truthy (storeJobs (settings example_queue))"
    by (simp add: example_queue_def)
  from save_overwrites_id [of example_queue "example_job\<lparr>jobId := Str ''a''\<rparr>" Null]
  have a: "snd (save example_queue (example_job\<lparr>jobId := Str ''a''\<rparr>) (Fulfilled Null)) =
     (Returns (Fulfilled This), example_job\<lparr>jobId := Null\<rparr>, example_queue)"
    by simp
  from save_overwrites_id [of example_queue example_job "Str ''7''"] s
  have b: "snd (save example_queue example_job (Fulfilled (Str ''7''))) =
     (Returns (Fulfilled This), example_job\<lparr>jobId := Str ''7''\<rparr>,
      example_queue\<lparr>jobs := (jobs example_queue)(Str ''7'' \<mapsto> example_job\<lparr>jobId := Str ''7''\<rparr>)\<rparr>)"
    by simp
  from a b show ?thesis by simp
qed

text \<open>
  Claim C1 as stated fails: a job saved with the candidate id \<^verbatim>\<open>a\<close>, to which the
  script answers \<^verbatim>\<open>null\<close> (not created), has the id \<^verbatim>\<open>null\<close> afterwards, not
  \<^verbatim>\<open>a\<close>.
\<close>

theorem save_duplicate_id_counterexample:
  "save example_queue (example_job\<lparr>jobId := Str ''a''\<rparr>) (Fulfilled Null) =
     ([EvalScript ''addJob'' 3
         [Val (Str ''bq:test:id''), Val (Str ''bq:test:jobs''), Val (Str ''bq:test:waiting''),
          Val (Str ''a''), Text (toData (example_job\<lparr>jobId := Str ''a''\<rparr>))]],
      Returns (Fulfilled This), example_job\<lparr>jobId := Null\<rparr>, example_queue)
   \<and> jobId (example_job\<lparr>jobId := Null\<rparr>) \<noteq> jobId (example_job\<lparr>jobId := Str ''a''\<rparr>)"
  by (simp add: save_def Let_def example_job_def example_queue_def get_prop_def js_or_def)

section \<open>reportProgress\<close>

lemma reportProgress_empty:
  "v = Null \<or> v = Undefined \<Longrightarrow>
   reportProgress q j v c p = ([], Returns (Rejected (Error ''Progress cannot be empty'')), j)"
  by (auto simp: reportProgress_def)

lemma reportProgress_value:
  "v \<noteq> Null \<Longrightarrow> v \<noteq> Undefined \<Longrightarrow>
   reportProgress q j v (Fulfilled Client) p =
     ([Publish (toKey q ''events'')
         (JObj (stringify_props [(''id'', jobId j), (''event'', Str ''progress''), (''data'', v)]))],
      Returns p, j\<lparr>progress := v\<rparr>)"
  by (simp add: reportProgress_def)

text \<open>
  The publish request is made in the callback that receives the client: a queue that hands
  over none has nothing published, and its error is what the returned promise is
  rejected with.
\<close>

lemma reportProgress_no_client:
  "v \<noteq> Null \<Longrightarrow> v \<noteq> Undefined \<Longrightarrow>
   reportProgress q j v (Rejected e) p = ([], Returns (Rejected e), j\<lparr>progress := v\<rparr>)"
  by (simp add: reportProgress_def)

lemma reportProgress_sets:
  "v \<noteq> Null \<Longrightarrow> v \<noteq> Undefined \<Longrightarrow>
   snd (snd (reportProgress q j v c p)) = j\<lparr>progress := v\<rparr>"
  by (cases c) (simp_all add: reportProgress_def)

text \<open>
  Claim C7. \<^verbatim>\<open>reportProgress(v)\<close> with \<open>v\<close> \<^verbatim>\<open>null\<close> or \<^verbatim>\<open>undefined\<close> returns a
  promise rejected with an \<^verbatim>\<open>Error\<close> (the call itself returns, it does not throw),
  makes no request and leaves the job, \<^verbatim>\<open>progress\<close> included, as it was. With any
  other \<open>v\<close> it sets \<^verbatim>\<open>progress\<close> to \<open>v\<close> and, the queue having handed over its
  client, publishes exactly one message: on the channel \<^verbatim>\<open>toKey('events')\<close>, with the
  JSON text of \<^verbatim>\<open>{id, event: "progress", data: v}\<close> as payload; the promise it returns
  settles as that request does.
\<close>

theorem reportProgress_contract:
  "(v = Null \<or> v = Undefined \<longrightarrow>
      reportProgress q j v c p = ([], Returns (Rejected (Error ''Progress cannot be empty'')), j))
   \<and> (v \<noteq> Null \<and> v \<noteq> Undefined \<longrightarrow>
      snd (snd (reportProgress q j v c p)) = j\<lparr>progress := v\<rparr>
      \<and> (\<exists>payload.
            JSON_stringify (Obj [(''id'', jobId j), (''event'', Str ''progress''), (''data'', v)])
              = Some payload
            \<and> reportProgress q j v (Fulfilled Client) p =
                ([Publish (toKey q ''events'') payload], Returns p, j\<lparr>progress := v\<rparr>)))"
  by (simp add: reportProgress_empty reportProgress_value reportProgress_sets)

theorem reportProgress_contract_witness:
  "reportProgress example_queue example_job Null (Fulfilled Client) (Fulfilled (Num (Fin 1))) =
     ([], Returns (Rejected (Error ''Progress cannot be empty'')), example_job)
   \<and> progress (snd (snd (reportProgress example_queue example_job Null (Fulfilled Client)
         (Fulfilled (Num (Fin 1)))))) = Num (Fin 0)
   \<and> reportProgress example_queue (example_job\<lparr>jobId := Str ''7''\<rparr>) (Num (Fin 42))
        (Fulfilled Client) (Fulfilled (Num (Fin 1))) =
     ([Publish ''bq:test:events''
         (JObj [(''id'', JStr ''7''), (''event'', JStr ''progress''), (''data'', JNum 42)])],
      Returns (Fulfilled (Num (Fin 1))), example_job\<lparr>jobId := Str ''7'', progress := Num (Fin 42)\<rparr>)"
proof -
  from reportProgress_contract [of Null example_queue example_job "Fulfilled Client"
      "Fulfilled (Num (Fin 1))"]
  have a: "reportProgress example_queue example_job Null (Fulfilled Client) (Fulfilled (Num (Fin 1))) =
     ([], Returns (Rejected (Error ''Progress cannot be empty'')), example_job)"
    by simp
  then have a': "progress (snd (snd (reportProgress example_queue example_job Null (Fulfilled Client)
         (Fulfilled (Num (Fin 1)))))) = Num (Fin 0)"
    by (simp add: example_job_def)
  from reportProgress_contract [of "Num (Fin 42)" example_queue "example_job\<lparr>jobId := Str ''7''\<rparr>"
      "Fulfilled Client" "Fulfilled (Num (Fin 1))"]
  have b: "reportProgress example_queue (example_job\<lparr>jobId := Str ''7''\<rparr>) (Num (Fin 42))
        (Fulfilled Client) (Fulfilled (Num (Fin 1))) =
     ([Publish ''bq:test:events''
         (JObj [(''id'', JStr ''7''), (''event'', JStr ''progress''), (''data'', JNum 42)])],
      Returns (Fulfilled (Num (Fin 1))), example_job\<lparr>jobId := Str ''7'', progress := Num (Fin 42)\<rparr>)"
    by (simp add: example_queue_def)
  from a a' b show ?thesis by simp
qed


section \<open>delayUntil\<close>

lemma num_greater_valid:
  "num_greater ts (of_nat now) \<Longrightarrow> ts \<noteq> NaN \<and> \<not> num_less ts 0"
proof (cases ts)
  case (Fin r)
  assume "num_greater ts (of_nat now)"
  with Fin have "(of_nat now :: rat) < r" by simp
  moreover have "(0 :: rat) \<le> of_nat now" by simp
  ultimately have "0 < r" by linarith
  with Fin show ?thesis by simp
qed simp_all

lemma delayUntil_fails_iff:
  "timestamp_of t = Some ts \<Longrightarrow>
   (\<exists>e. fst (delayUntil now j t) = Throws e) \<longleftrightarrow> (ts = NaN \<or> num_less ts 0)"
  by (simp add: delayUntil_def)

lemma delayUntil_future:
  assumes "timestamp_of t = Some ts" "num_greater ts (of_nat now)"
  shows "delayUntil now j t =
           (Returns This, j\<lparr>options := set_prop ''delay'' (Num ts) (options j)\<rparr>)"
  using assms num_greater_valid [OF assms(2)] by (simp add: delayUntil_def)

lemma delayUntil_not_future:
  "timestamp_of t = Some ts \<Longrightarrow> ts \<noteq> NaN \<Longrightarrow> \<not> num_less ts 0 \<Longrightarrow>
   \<not> num_greater ts (of_nat now) \<Longrightarrow> delayUntil now j t = (Returns This, j)"
  by (simp add: delayUntil_def)

lemma get_set_prop_same: "get_prop (set_prop k v kvs) k = v"
  by (simp add: get_set_prop)

text \<open>The definitions that evaluate \<^verbatim>\<open>parseInt\<close> and \<^verbatim>\<open>parseFloat\<close> on a literal.\<close>

lemmas parse_defs = parseInt_str_def parseFloat_def is_space_def is_digit_def digit_val_def
  signed_def exact_limit_def trunc_zero_def

text \<open>
  Claim C6. \<^verbatim>\<open>delayUntil(t)\<close>, where the timestamp taken from \<open>t\<close> (the time of a
  date-like value, or \<^verbatim>\<open>parseInt(t, 10)\<close>) is \<open>ts\<close>: the call throws exactly when
  \<open>ts\<close> is NaN or negative. When \<open>ts\<close> is strictly greater than the clock it returns
  the job with \<^verbatim>\<open>options.delay\<close> set to \<open>ts\<close>; when \<open>ts\<close> is a number from 0 up to
  the clock, it returns the job unchanged.
\<close>

theorem delayUntil_contract:
  "timestamp_of t = Some ts \<longrightarrow>
     ((\<exists>e. fst (delayUntil now j t) = Throws e) \<longleftrightarrow> (ts = NaN \<or> num_less ts 0))
     \<and> (num_greater ts (of_nat now) \<longrightarrow>
          delayUntil now j t =
            (Returns This, j\<lparr>options := set_prop ''delay'' (Num ts) (options j)\<rparr>)
          \<and> get_prop (options (snd (delayUntil now j t))) ''delay'' = Num ts)
     \<and> (ts \<noteq> NaN \<and> \<not> num_less ts 0 \<and> \<not> num_greater ts (of_nat now) \<longrightarrow>
          delayUntil now j t = (Returns This, j))"
  by (simp add: delayUntil_fails_iff delayUntil_future delayUntil_not_future get_set_prop_same)

theorem delayUntil_contract_witness:
  "delayUntil 1700000000000 example_job (DateLike (Fin 1700003600000)) =
     (Returns This,
      example_job\<lparr>options := options example_job @ [(''delay'', Num (Fin 1700003600000))]\<rparr>)
   \<and> delayUntil 1700000000000 example_job (Plain (Str ''1700003600000'')) =
     (Returns This,
      example_job\<lparr>options := options example_job @ [(''delay'', Num (Fin 1700003600000))]\<rparr>)
   \<and> delayUntil 1700000000000 example_job (DateLike (Fin 1699999999000)) =
     (Returns This, example_job)
   \<and> delayUntil 1700000000000 example_job (DateLike (Fin 1700000000000)) =
     (Returns This, example_job)
   \<and> (\<exists>e. fst (delayUntil 1700000000000 example_job (Plain (Str ''tomorrow''))) = Throws e)
   \<and> (\<exists>e. fst (delayUntil 1700000000000 example_job (Plain (Num (Fin (- 5))))) = Throws e)"
proof -
  have o: "set_prop ''delay'' v (options example_job) = options example_job @ [(''delay'', v)]" for v
    by (simp add: set_prop_def example_job_def)
  have p1: "timestamp_of (Plain (Str ''1700003600000'')) = Some (Fin 1700003600000)"
    by (simp add: parse_defs)
  have p2: "timestamp_of (Plain (Str ''tomorrow'')) = Some NaN"
    by (simp add: parse_defs)
  have p3: "timestamp_of (Plain (Num (Fin (- 5)))) = Some (Fin (- 5))"
    by (simp add: parse_defs)
  from delayUntil_contract [of "DateLike (Fin 1700003600000)" "Fin 1700003600000" 1700000000000 example_job]
  have a: "delayUntil 1700000000000 example_job (DateLike (Fin 1700003600000)) =
     (Returns This,
      example_job\<lparr>options := options example_job @ [(''delay'', Num (Fin 1700003600000))]\<rparr>)"
    by (simp add: o)
  from delayUntil_contract [of "Plain (Str ''1700003600000'')" "Fin 1700003600000" 1700000000000 example_job] p1
  have b: "delayUntil 1700000000000 example_job (Plain (Str ''1700003600000'')) =
     (Returns This,
      example_job\<lparr>options := options example_job @ [(''delay'', Num (Fin 1700003600000))]\<rparr>)"
    by (simp add: o)
  from delayUntil_contract [of "DateLike (Fin 1699999999000)" "Fin 1699999999000" 1700000000000 example_job]
  have c: "delayUntil 1700000000000 example_job (DateLike (Fin 1699999999000)) =
     (Returns This, example_job)"
    by simp
  from delayUntil_contract [of "DateLike (Fin 1700000000000)" "Fin 1700000000000" 1700000000000 example_job]
  have d: "delayUntil 1700000000000 example_job (DateLike (Fin 1700000000000)) =
     (Returns This, example_job)"
    by simp
  from delayUntil_contract [of "Plain (Str ''tomorrow'')" NaN 1700000000000 example_job] p2
  have e: "\<exists>e. fst (delayUntil 1700000000000 example_job (Plain (Str ''tomorrow''))) = Throws e"
    by simp
  from delayUntil_contract [of "Plain (Num (Fin (- 5)))" "Fin (- 5)" 1700000000000 example_job] p3
  have f: "\<exists>e. fst (delayUntil 1700000000000 example_job (Plain (Num (Fin (- 5))))) = Throws e"
    by simp
  from a b c d e f show ?thesis by blast
qed

section \<open>Rounding to a double\<close>

lemma bit_length_bounds:
  "0 < n \<Longrightarrow> 2 ^ (bit_length n - 1) \<le> n \<and> n < 2 ^ bit_length n"
proof (induction n rule: bit_length.induct)
  case (1 n)
  show ?case
  proof (cases "n div 2 = 0")
    case True
    with 1(2) have "n = 1" by (simp add: div_eq_0_iff) 
    then show ?thesis
      by (simp add: bit_length.simps [of "Suc 0"] bit_length.simps [of 0])
  next
    case False
    with 1 have ih: "2 ^ (bit_length (n div 2) - 1) \<le> n div 2" "n div 2 < 2 ^ bit_length (n div 2)"
      by simp_all
    from False have pos: "0 < bit_length (n div 2)"
      by (simp add: bit_length.simps [of "n div 2"])
    have bl: "bit_length n = Suc (bit_length (n div 2))"
      using 1(2) by (simp add: bit_length.simps [of n])
    from pos obtain k where k: "bit_length (n div 2) = Suc k" by (cases "bit_length (n div 2)") auto
    from ih(1) k have "2 * 2 ^ k \<le> 2 * (n div 2)" by simp
    also have "\<dots> \<le> n" by simp
    finally have lo: "2 ^ (bit_length n - 1) \<le> n" by (simp add: bl k)
    from ih(2) have "n div 2 + 1 \<le> 2 ^ bit_length (n div 2)" by simp
    then have "2 * (n div 2) + 2 \<le> 2 * 2 ^ bit_length (n div 2)" by simp
    moreover have "n < 2 * (n div 2) + 2" by presburger
    ultimately have hi: "n < 2 ^ bit_length n" by (simp add: bl)
    from lo hi show ?thesis by simp
  qed
qed


lemma two_powi_pos: "0 < (2::rat) powi k"
  by simp

lemma floor_log2_bounds:
  assumes "0 < x"
  shows "2 powi floor_log2 x \<le> x \<and> x < 2 powi (floor_log2 x + 1)"
proof -
  obtain a b where q: "quotient_of x = (a, b)" by (cases "quotient_of x")
  then have b: "0 < b" and x: "x = of_int a / of_int b"
    by (simp_all add: quotient_of_denom_pos quotient_of_div)
  from assms b x have a: "0 < a"
    by (simp add: zero_less_divide_iff)
  define la where "la = bit_length (nat a)"
  define lb where "lb = bit_length (nat b)"
  from a bit_length_bounds [of "nat a"]
  have an: "2 ^ (la - 1) \<le> nat a" "nat a < 2 ^ la" by (simp_all add: la_def)
  from b bit_length_bounds [of "nat b"]
  have bn: "2 ^ (lb - 1) \<le> nat b" "nat b < 2 ^ lb" by (simp_all add: lb_def)
  from a an(2) have la0: "0 < la" by (cases la) auto
  from b bn(2) have lb0: "0 < lb" by (cases lb) auto
  have ar: "(2::rat) ^ (la - 1) \<le> of_int a" "(of_int a :: rat) < 2 ^ la"
  proof -
    from an(1) have "(of_nat (2 ^ (la - 1)) :: rat) \<le> of_nat (nat a)" by (simp only: of_nat_le_iff)
    with a show "(2::rat) ^ (la - 1) \<le> of_int a" by simp
    from an(2) have "(of_nat (nat a) :: rat) < of_nat (2 ^ la)" by (simp only: of_nat_less_iff)
    with a show "(of_int a :: rat) < 2 ^ la" by simp
  qed
  have br: "(2::rat) ^ (lb - 1) \<le> of_int b" "(of_int b :: rat) < 2 ^ lb"
  proof -
    from bn(1) have "(of_nat (2 ^ (lb - 1)) :: rat) \<le> of_nat (nat b)" by (simp only: of_nat_le_iff)
    with b show "(2::rat) ^ (lb - 1) \<le> of_int b" by simp
    from bn(2) have "(of_nat (nat b) :: rat) < of_nat (2 ^ lb)" by (simp only: of_nat_less_iff)
    with b show "(of_int b :: rat) < 2 ^ lb" by simp
  qed
  define k where "k = int la - int lb"
  have bpos: "(0::rat) < of_int b" using b by simp
  have hi: "x < 2 powi (k + 1)"
  proof -
    have "2 powi (k + 1) = (2::rat) ^ la * 2 / 2 ^ lb"
      by (simp add: k_def power_int_add power_int_diff)
    also have "\<dots> = 2 ^ la / 2 ^ (lb - 1)"
      using lb0 by (cases lb) simp_all
    finally have e: "2 powi (k + 1) = (2::rat) ^ la / 2 ^ (lb - 1)" .
    have "x < 2 ^ la / of_int b"
      unfolding x using ar(2) bpos by (simp add: divide_strict_right_mono)
    also have "\<dots> \<le> 2 ^ la / 2 ^ (lb - 1)"
      using br(1) bpos by (intro divide_left_mono) simp_all
    finally show ?thesis by (simp only: e)
  qed
  have lo: "2 powi (k - 1) < x"
  proof -
    have "2 powi (k - 1) = (2::rat) ^ la / 2 / 2 ^ lb"
      by (simp add: k_def power_int_diff)
    also have "\<dots> = 2 ^ (la - 1) / 2 ^ lb"
      using la0 by (cases la) simp_all
    finally have e: "2 powi (k - 1) = (2::rat) ^ (la - 1) / 2 ^ lb" .
    have "(2::rat) ^ (la - 1) / 2 ^ lb < 2 ^ (la - 1) / of_int b"
      using br(2) bpos by (intro divide_strict_left_mono) simp_all
    also have "\<dots> \<le> x"
      unfolding x using ar(1) bpos by (simp add: divide_right_mono)
    finally show ?thesis by (simp only: e)
  qed
  have fl: "floor_log2 x = (if 2 powi k \<le> x then k else k - 1)"
    by (simp add: floor_log2_def q k_def la_def lb_def Let_def)
  show ?thesis
  proof (cases "2 powi k \<le> x")
    case True
    with hi fl show ?thesis by simp
  next
    case False
    with lo fl show ?thesis by simp
  qed
qed

lemma floor_log2_eq:
  assumes "0 < x" "2 powi e \<le> x" "x < 2 powi (e + 1)"
  shows "floor_log2 x = e"
proof -
  let ?f = "floor_log2 x"
  from floor_log2_bounds [OF assms(1)]
  have f: "2 powi ?f \<le> x" "x < 2 powi (?f + 1)" by simp_all
  have "?f < e + 1"
  proof (rule ccontr)
    assume "\<not> ?f < e + 1"
    then have "e + 1 \<le> ?f" by simp
    then have "(2::rat) powi (e + 1) \<le> 2 powi ?f" by (intro power_int_increasing) simp_all
    with f(1) assms(3) show False by simp
  qed
  moreover have "e < ?f + 1"
  proof (rule ccontr)
    assume "\<not> e < ?f + 1"
    then have "?f + 1 \<le> e" by simp
    then have "(2::rat) powi (?f + 1) \<le> 2 powi e" by (intro power_int_increasing) simp_all
    with f(2) assms(2) show False by simp
  qed
  ultimately show ?thesis by simp
qed

lemma round_even_int: "round_even (of_int k) = k"
  by (simp add: round_even_def)

lemma round_even_eq:
  assumes "of_int n - 1 / 2 < q" "q < of_int n + 1 / 2"
  shows "round_even q = n"
proof -
  have fl: "\<lfloor>q\<rfloor> = n \<or> \<lfloor>q\<rfloor> = n - 1"
  proof -
    from assms have "of_int (n - 1) \<le> q" "q < of_int (n + 1)" by simp_all
    then have "n - 1 \<le> \<lfloor>q\<rfloor>" "\<lfloor>q\<rfloor> < n + 1" by (simp_all only: le_floor_iff floor_less_iff)
    then show ?thesis by linarith
  qed
  then show ?thesis
  proof
    assume f: "\<lfloor>q\<rfloor> = n"
    with assms(2) have "q - of_int \<lfloor>q\<rfloor> < 1 / 2" by simp
    with f show ?thesis by (simp add: round_even_def Let_def)
  next
    assume f: "\<lfloor>q\<rfloor> = n - 1"
    with assms(1) have "1 / 2 < q - of_int \<lfloor>q\<rfloor>" by simp
    with f show ?thesis by (simp add: round_even_def Let_def)
  qed
qed


lemma round_double_eval:
  assumes "0 < x" "2 powi e \<le> x" "x < 2 powi (e + 1)" "- 1022 \<le> e"
    and "of_int n - 1 / 2 < x / 2 powi (e - 52)" "x / 2 powi (e - 52) < of_int n + 1 / 2"
    and "of_int n * 2 powi (e - 52) < (2::rat) powi 1024"
  shows "round_double x = Fin (of_int n * 2 powi (e - 52))"
proof -
  have fl: "floor_log2 \<bar>x\<bar> = e" using assms(1-3) by (simp add: floor_log2_eq)
  with assms(4) have m: "max (floor_log2 \<bar>x\<bar>) (- 1022) = e" by simp
  from assms(1) have ax: "\<bar>x\<bar> = x" by simp
  have r: "round_even (\<bar>x\<bar> / 2 powi (e - 52)) = n"
    unfolding ax using assms(5,6) by (rule round_even_eq)
  from assms(1,7) show ?thesis
    unfolding round_double_def m Let_def r by (simp del: power_int_numeral)
qed

lemma round_double_nat:
  assumes "n \<le> 2 ^ 53"
  shows "round_double (of_nat n) = Fin (of_nat n)"
proof (cases "n = 0")
  case True
  then show ?thesis by (simp add: round_double_def)
next
  case False
  let ?x = "of_nat n :: rat"
  define e where "e = floor_log2 ?x"
  from False have pos: "0 < ?x" by simp
  from floor_log2_bounds [OF pos] have b: "2 powi e \<le> ?x" "?x < 2 powi (e + 1)"
    by (simp_all add: e_def)
  from False have one: "(1::rat) \<le> ?x" by (simp add: Suc_le_eq)
  from assms have "(of_nat n :: rat) \<le> of_nat (2 ^ 53)" by (simp only: of_nat_le_iff)
  then have top: "?x \<le> 2 ^ 53" by simp
  have e0: "0 \<le> e"
  proof (rule ccontr)
    assume "\<not> 0 \<le> e"
    then have "e + 1 \<le> 0" by simp
    then have "(2::rat) powi (e + 1) \<le> 2 powi 0" by (intro power_int_increasing) simp_all
    with b(2) one show False by simp
  qed
  have e53: "e \<le> 53"
  proof (rule ccontr)
    assume "\<not> e \<le> 53"
    then have "54 \<le> e" by simp
    then have "(2::rat) powi 54 \<le> 2 powi e" by (intro power_int_increasing) simp_all
    with b(1) top show False by simp
  qed
  obtain k :: int where k: "?x / 2 powi (e - 52) = of_int k"
  proof (cases "e \<le> 52")
    case True
    then have "(2::rat) powi (52 - e) = 2 ^ nat (52 - e)" by (simp add: power_int_def)
    moreover have "?x / 2 powi (e - 52) = ?x * 2 powi (52 - e)"
      using power_int_minus [of "2::rat" "e - 52"] by (simp add: field_simps)
    ultimately have "?x / 2 powi (e - 52) = of_int (int n * 2 ^ nat (52 - e))" by simp
    with that show ?thesis by blast
  next
    case False
    with e53 have e: "e = 53" by simp
    with b(1) top have "?x = 2 ^ 53" by simp
    with e have "?x / 2 powi (e - 52) = of_int (2 ^ 52)" by simp
    with that show ?thesis by blast
  qed
  have u: "(0::rat) < 2 powi (e - 52)" by simp
  from k u have y: "of_int k * 2 powi (e - 52) = ?x" by (simp add: field_simps)
  from e0 have m: "max (floor_log2 \<bar>?x\<bar>) (- 1022) = e" by (simp add: e_def)
  have r: "round_even (\<bar>?x\<bar> / 2 powi (e - 52)) = k"
    using k by (simp add: round_even_int)
  have lt: "\<not> (2::rat) powi 1024 \<le> ?x"
  proof -
    have "(2::rat) ^ 53 < 2 ^ 1024" by (rule power_strict_increasing) simp_all
    with top show ?thesis by simp
  qed
  from pos lt show ?thesis
    unfolding round_double_def m Let_def r y by (simp del: power_int_numeral)
qed



section \<open>setInterval\<close>

lemma safe_positive_nat:
  assumes "isSafeInteger iv" "\<not> less_eq_zero iv"
  shows "\<exists>n::nat. 0 < n \<and> of_nat n \<le> max_safe \<and> iv = Num (Fin (of_nat n))"
proof -
  from assms(1) obtain r where iv: "iv = Num (Fin r)"
    and int: "of_int \<lfloor>r\<rfloor> = r" and le: "\<bar>r\<bar> \<le> max_safe"
    by (cases iv rule: isSafeInteger.cases) auto
  from assms(2) iv have pos: "0 < r" by simp
  then have fl: "0 < \<lfloor>r\<rfloor>" using int by linarith
  have "of_nat (nat \<lfloor>r\<rfloor>) = (of_int \<lfloor>r\<rfloor> :: rat)" using fl by simp
  with int have eq: "of_nat (nat \<lfloor>r\<rfloor>) = r" by simp
  from fl have n0: "0 < nat \<lfloor>r\<rfloor>" by simp
  from le pos have "r \<le> max_safe" by linarith
  then have n1: "of_nat (nat \<lfloor>r\<rfloor>) \<le> max_safe" by (simp only: eq)
  have n2: "iv = Num (Fin (of_nat (nat \<lfloor>r\<rfloor>)))" by (simp only: eq iv)
  from n0 n1 n2
  have "0 < nat \<lfloor>r\<rfloor> \<and> of_nat (nat \<lfloor>r\<rfloor>) \<le> max_safe
        \<and> iv = Num (Fin (of_nat (nat \<lfloor>r\<rfloor>)))"
    by (intro conjI)
  then show ?thesis by (rule exI)
qed

lemma interval_millis_returns:
  assumes "interval_millis x = Returns iv"
  shows "\<exists>n::nat. 0 < n \<and> of_nat n \<le> max_safe \<and> iv = Num (Fin (of_nat n))"
proof -
  from assms have "isSafeInteger iv \<and> \<not> less_eq_zero iv"
    by (auto simp: interval_millis_def split: completion.splits if_splits)
  then show ?thesis by (simp add: safe_positive_nat)
qed

lemma num_to_string_nat:
  assumes "of_nat n \<le> max_safe"
  shows "num_to_string (Fin (of_nat n)) = Some (digits_of n)"
proof -
  have "\<lfloor>(of_nat n :: rat)\<rfloor> = int n" by simp
  moreover from assms have "\<bar>(of_nat n :: rat)\<bar> < 1000000000000000000000"
    by (simp add: max_safe_def)
  ultimately show ?thesis by (simp del: digits_of.simps)
qed

lemma interval_millis_modelled:
  "(\<forall>s. x \<noteq> Str s) \<Longrightarrow> interval_millis x \<noteq> Unmodelled"
  by (cases x) (simp_all add: interval_millis_def)


lemma setInterval_unfold:
  assumes "interval_millis x = Returns iv"
    and "\<not> truthy (removeOnSuccess (settings q))" "\<not> truthy (removeOnFailure (settings q))"
    and "js_or (jobId j) (Str []) = Str s" "CHR '':'' \<notin> set s"
    and "to_string iv = Some a"
  shows "setInterval q now j x =
           (Returns This,
            j\<lparr>jobId := Str (''r:'' @ a @ '':'' @ s),
              options := set_prop ''delay''
                (js_or (get_prop (options j) ''delay'') (Num (Fin (of_nat now + 1))))
                (options j)\<rparr>)"
  using assms by (simp add: setInterval_def Let_def)

lemma setInterval_success:
  assumes "setInterval q now j x = (Returns This, j')"
  shows "\<exists>n s. 0 < n \<and> of_nat n \<le> max_safe
           \<and> interval_millis x = Returns (Num (Fin (of_nat n)))
           \<and> js_or (jobId j) (Str []) = Str s \<and> CHR '':'' \<notin> set s
           \<and> j' = j\<lparr>jobId := Str (''r:'' @ digits_of n @ '':'' @ s),
                    options := set_prop ''delay''
                      (js_or (get_prop (options j) ''delay'') (Num (Fin (of_nat now + 1))))
                      (options j)\<rparr>"
proof -
  from assms obtain iv where iv: "interval_millis x = Returns iv"
    by (cases "interval_millis x") (simp_all add: setInterval_def)
  then obtain n :: nat where n: "0 < n" "of_nat n \<le> max_safe" "iv = Num (Fin (of_nat n))"
    using interval_millis_returns by blast
  have a: "to_string iv = Some (digits_of n)"
    unfolding n(3) to_string.simps by (rule num_to_string_nat [OF n(2)])
  from assms iv have st: "\<not> truthy (removeOnSuccess (settings q))"
    "\<not> truthy (removeOnFailure (settings q))"
    by (auto simp: setInterval_def split: if_splits)
  from assms iv st have hc: "has_colon (js_or (jobId j) (Str [])) = Returns False"
    by (cases "has_colon (js_or (jobId j) (Str []))")
       (auto simp: setInterval_def Let_def split: if_splits)
  from assms iv st hc a obtain s where s: "to_string (js_or (jobId j) (Str [])) = Some s"
    by (cases "to_string (js_or (jobId j) (Str []))") (auto simp: setInterval_def Let_def)
  from hc s have str: "js_or (jobId j) (Str []) = Str s"
    by (cases "js_or (jobId j) (Str [])") simp_all
  with hc have nc: "CHR '':'' \<notin> set s" by simp
  from setInterval_unfold [OF iv st str nc a, of now] assms
  have "j' = j\<lparr>jobId := Str (''r:'' @ digits_of n @ '':'' @ s),
                    options := set_prop ''delay''
                      (js_or (get_prop (options j) ''delay'') (Num (Fin (of_nat now + 1))))
                      (options j)\<rparr>"
    by simp
  with n iv str nc show ?thesis by blast
qed

text \<open>
  The interval that \<^verbatim>\<open>setInterval\<close> goes on with is its argument, or what the unit
  string that is its argument denotes.
\<close>

lemma interval_millis_source:
  assumes "interval_millis x = Returns iv"
  shows "x = iv \<or> (\<exists>t. x = Str t \<and> string_interval t = Returns iv)"
proof (cases "\<exists>t. x = Str t")
  case True
  then obtain t where t: "x = Str t" by blast
  with assms have "string_interval t = Returns iv"
    by (cases "string_interval t") (simp_all add: interval_millis_def split: if_splits)
  with t show ?thesis by simp
next
  case False
  with assms have "x = iv"
    by (cases x) (simp_all add: interval_millis_def split: if_splits)
  then show ?thesis by simp
qed

lemma interval_millis_nat:
  assumes "0 < n" "of_nat n \<le> max_safe"
  shows "interval_millis (Num (Fin (of_nat n))) = Returns (Num (Fin (of_nat n)))"
proof -
  from assms(2) have "\<bar>(of_nat n :: rat)\<bar> \<le> max_safe" by simp
  with assms(1) show ?thesis by (simp add: interval_millis_def)
qed

lemma interval_millis_string:
  assumes "0 < n" "of_nat n \<le> max_safe" "string_interval t = Returns (Num (Fin (of_nat n)))"
  shows "interval_millis (Str t) = Returns (Num (Fin (of_nat n)))"
proof -
  from assms(2) have "\<bar>(of_nat n :: rat)\<bar> \<le> max_safe" by simp
  with assms(1,3) show ?thesis by (simp add: interval_millis_def)
qed

lemma setInterval_interval:
  assumes n: "0 < n" "of_nat n \<le> max_safe"
    and x: "x = Num (Fin (of_nat n))
            \<or> x = Str t \<and> string_interval t = Returns (Num (Fin (of_nat n)))"
    and st: "\<not> truthy (removeOnSuccess (settings q))" "\<not> truthy (removeOnFailure (settings q))"
    and s: "js_or (jobId j) (Str []) = Str s" "CHR '':'' \<notin> set s"
  shows "setInterval q now j x =
           (Returns This,
            j\<lparr>jobId := Str (''r:'' @ digits_of n @ '':'' @ s),
              options := set_prop ''delay''
                (js_or (get_prop (options j) ''delay'') (Num (Fin (of_nat now + 1))))
                (options j)\<rparr>)"
proof -
  from x have iv: "interval_millis x = Returns (Num (Fin (of_nat n)))"
  proof
    assume "x = Num (Fin (of_nat n))"
    with n show ?thesis by (simp only: interval_millis_nat)
  next
    assume "x = Str t \<and> string_interval t = Returns (Num (Fin (of_nat n)))"
    with n show ?thesis by (simp only: interval_millis_string)
  qed
  have a: "to_string (Num (Fin (of_nat n))) = Some (digits_of n)"
    unfolding to_string.simps by (rule num_to_string_nat [OF n(2)])
  show ?thesis by (rule setInterval_unfold [OF iv st s a])
qed

lemma setInterval_auto_remove:
  assumes "truthy (removeOnSuccess (settings q)) \<or> truthy (removeOnFailure (settings q))"
  shows "fst (setInterval q now j x) \<noteq> Returns This
         \<and> (interval_millis x \<noteq> Unmodelled \<longrightarrow> (\<exists>e. fst (setInterval q now j x) = Throws e))"
  using assms by (cases "interval_millis x") (auto simp: setInterval_def)

lemma setInterval_colon:
  assumes "jobId j = Str s" "CHR '':'' \<in> set s"
  shows "fst (setInterval q now j x) \<noteq> Returns This
         \<and> (interval_millis x \<noteq> Unmodelled \<longrightarrow> (\<exists>e. fst (setInterval q now j x) = Throws e))"
proof -
  from assms have "s \<noteq> []" by auto
  with assms have "js_or (jobId j) (Str []) = Str s" by (simp add: js_or_def)
  with assms show ?thesis
    by (cases "interval_millis x") (auto simp: setInterval_def Let_def)
qed
















text \<open>
  \<^verbatim>\<open>setInterval\<close> is answered for every argument that is not a string, on every job
  whose id is not an array.
\<close>

lemma setInterval_modelled:
  assumes "\<forall>s. x \<noteq> Str s" "\<forall>xs. jobId j \<noteq> Arr xs"
  shows "fst (setInterval q now j x) \<noteq> Unmodelled"
proof (cases "interval_millis x")
  case (Returns iv)
  then obtain n :: nat where n: "of_nat n \<le> max_safe" "iv = Num (Fin (of_nat n))"
    using interval_millis_returns by blast
  have a: "to_string iv = Some (digits_of n)"
    unfolding n(2) to_string.simps by (rule num_to_string_nat [OF n(1)])
  from assms(2) have "has_colon (js_or (jobId j) (Str [])) \<noteq> Unmodelled"
    by (cases "jobId j") (simp_all add: js_or_def)
  moreover from assms(2) have "to_string (js_or (jobId j) (Str [])) = None \<Longrightarrow>
      \<exists>e. has_colon (js_or (jobId j) (Str [])) = Throws e"
    by (cases "jobId j") (auto simp: js_or_def split: if_splits)
  ultimately show ?thesis using Returns a
    by (cases "has_colon (js_or (jobId j) (Str []))";
        cases "to_string (js_or (jobId j) (Str []))")
       (auto simp: setInterval_def Let_def)
next
  case (Throws e)
  then show ?thesis by (simp add: setInterval_def)
next
  case Unmodelled
  with assms(1) show ?thesis using interval_millis_modelled by blast
qed

text \<open>
  \<open>digits_of\<close> prints what \<open>digits_value\<close> reads: the digits of \<open>n\<close> are decimal
  digits and denote \<open>n\<close>.
\<close>

lemma digit_val_char: "d < 10 \<Longrightarrow> digit_val (digit_char d) = d"
proof -
  assume "d < 10"
  then have "d \<in> {0, 1, 2, 3, 4, 5, 6, 7, 8, 9}" by auto
  then show ?thesis
    by (auto simp: digit_val_def digit_char_def)
qed

lemma digit_char_digit: "d < 10 \<Longrightarrow> is_digit (digit_char d)"
proof -
  assume "d < 10"
  then have "d \<in> {0, 1, 2, 3, 4, 5, 6, 7, 8, 9}" by auto
  then show ?thesis
    by (auto simp: is_digit_def digit_char_def)
qed

lemma digits_value_snoc:
  "digits_value acc (cs @ [c]) = 10 * digits_value acc cs + digit_val c"
  by (induction cs arbitrary: acc) simp_all

lemma digits_of_value: "digits_value 0 (digits_of n) = n"
proof (induction n rule: digits_of.induct)
  case (1 n)
  show ?case
  proof (cases "n < 10")
    case True
    then show ?thesis by (simp add: digits_of.simps [of n] digit_val_char)
  next
    case False
    with 1 have "digits_value 0 (digits_of (n div 10)) = n div 10" by simp
    with False show ?thesis
      by (simp add: digits_of.simps [of n] digits_value_snoc digit_val_char)
  qed
qed

lemma digits_of_digits: "digits_of n \<noteq> [] \<and> (\<forall>c\<in>set (digits_of n). is_digit c)"
proof (induction n rule: digits_of.induct)
  case (1 n)
  show ?case
  proof (cases "n < 10")
    case True
    then show ?thesis by (simp add: digits_of.simps [of n] digit_char_digit)
  next
    case False
    with 1 have "\<forall>c\<in>set (digits_of (n div 10)). is_digit c" by simp
    with False show ?thesis
      by (simp add: digits_of.simps [of n] digit_char_digit)
  qed
qed





text \<open>
  Claim C4. Whenever \<^verbatim>\<open>setInterval\<close> returns, the interval in milliseconds is a
  positive safe integer \<open>n\<close>: the argument itself when that is a number, what the unit
  string denotes (\<open>string_interval\<close>) when it is a string. The id the job had (or the
  empty string, when it had a falsy one) is a string \<open>s\<close>, and the job's \<^verbatim>\<open>id\<close> is then
  \<^verbatim>\<open>r:\<close> followed by the decimal digits of \<open>n\<close>, \<^verbatim>\<open>:\<close> and \<open>s\<close>. If the job had no
  \<^verbatim>\<open>options.delay\<close>, the option is then the clock plus 1 (in general the option is
  \<^verbatim>\<open>options.delay || Date.now() + 1\<close>); the other fields are as before. Conversely, for
  every positive safe integer \<open>n\<close>, given as a number or by a unit string, on a queue
  that removes no jobs and a job whose id (or the empty string) is a string \<open>s\<close> without
  \<^verbatim>\<open>:\<close>, \<^verbatim>\<open>setInterval\<close> returns, and the job is as described. \<^verbatim>\<open>setInterval\<close> does
  not return when the queue's \<^verbatim>\<open>removeOnSuccess\<close> or \<^verbatim>\<open>removeOnFailure\<close> is truthy,
  or when the job's id is a string with a \<^verbatim>\<open>:\<close>: it throws, for every interval the
  model answers for (every argument that is not a string, by
  \<open>interval_millis_modelled\<close>, and the strings of \<open>string_interval_digits_unit\<close> and
  \<open>string_interval_product\<close>).
\<close>

theorem setInterval_recurring:
  "(setInterval q now j x = (Returns This, j') \<longrightarrow>
      (\<exists>n s. 0 < n \<and> of_nat n \<le> max_safe
         \<and> (x = Num (Fin (of_nat n))
              \<or> (\<exists>t. x = Str t \<and> string_interval t = Returns (Num (Fin (of_nat n)))))
         \<and> interval_millis x = Returns (Num (Fin (of_nat n)))
         \<and> js_or (jobId j) (Str []) = Str s
         \<and> jobId j' = Str (''r:'' @ digits_of n @ '':'' @ s))
      \<and> (map_of (options j) ''delay'' = None \<longrightarrow>
           get_prop (options j') ''delay'' = Num (Fin (of_nat now + 1)))
      \<and> options j' = set_prop ''delay''
           (js_or (get_prop (options j) ''delay'') (Num (Fin (of_nat now + 1)))) (options j)
      \<and> data j' = data j \<and> status j' = status j \<and> progress j' = progress j
      \<and> count j' = count j)
   \<and> (0 < n \<and> of_nat n \<le> max_safe
        \<and> (x = Num (Fin (of_nat n))
             \<or> x = Str t \<and> string_interval t = Returns (Num (Fin (of_nat n))))
        \<and> \<not> truthy (removeOnSuccess (settings q)) \<and> \<not> truthy (removeOnFailure (settings q))
        \<and> js_or (jobId j) (Str []) = Str s \<and> CHR '':'' \<notin> set s \<longrightarrow>
      setInterval q now j x =
        (Returns This,
         j\<lparr>jobId := Str (''r:'' @ digits_of n @ '':'' @ s),
           options := set_prop ''delay''
             (js_or (get_prop (options j) ''delay'') (Num (Fin (of_nat now + 1))))
             (options j)\<rparr>))
   \<and> (truthy (removeOnSuccess (settings q)) \<or> truthy (removeOnFailure (settings q))
        \<or> (\<exists>s. jobId j = Str s \<and> CHR '':'' \<in> set s) \<longrightarrow>
      fst (setInterval q now j x) \<noteq> Returns This
      \<and> (interval_millis x \<noteq> Unmodelled \<longrightarrow> (\<exists>e. fst (setInterval q now j x) = Throws e)))"
proof (intro conjI impI)
  assume ok: "setInterval q now j x = (Returns This, j')"
  from setInterval_success [OF ok] obtain k s where
    k: "0 < k" "of_nat k \<le> max_safe" "interval_millis x = Returns (Num (Fin (of_nat k)))"
    and s: "js_or (jobId j) (Str []) = Str s"
    and j': "j' = j\<lparr>jobId := Str (''r:'' @ digits_of k @ '':'' @ s),
                    options := set_prop ''delay''
                      (js_or (get_prop (options j) ''delay'') (Num (Fin (of_nat now + 1))))
                      (options j)\<rparr>"
    by blast
  from interval_millis_source [OF k(3)]
  have src: "x = Num (Fin (of_nat k))
      \<or> (\<exists>t. x = Str t \<and> string_interval t = Returns (Num (Fin (of_nat k))))" .
  from j' have id: "jobId j' = Str (''r:'' @ digits_of k @ '':'' @ s)" by simp
  from k src s id show "\<exists>n s. 0 < n \<and> of_nat n \<le> max_safe
         \<and> (x = Num (Fin (of_nat n))
              \<or> (\<exists>t. x = Str t \<and> string_interval t = Returns (Num (Fin (of_nat n)))))
         \<and> interval_millis x = Returns (Num (Fin (of_nat n)))
         \<and> js_or (jobId j) (Str []) = Str s
         \<and> jobId j' = Str (''r:'' @ digits_of n @ '':'' @ s)"
    by blast
  from j' show "options j' = set_prop ''delay''
           (js_or (get_prop (options j) ''delay'') (Num (Fin (of_nat now + 1)))) (options j)"
    by simp
  from j' show "data j' = data j" "status j' = status j" "progress j' = progress j"
    "count j' = count j"
    by simp_all
  assume "map_of (options j) ''delay'' = None"
  then have "js_or (get_prop (options j) ''delay'') (Num (Fin (of_nat now + 1))) =
      Num (Fin (of_nat now + 1))"
    by (simp add: get_prop_def js_or_def)
  with j' show "get_prop (options j') ''delay'' = Num (Fin (of_nat now + 1))"
    by (simp add: get_set_prop_same)
next
  assume h: "0 < n \<and> of_nat n \<le> max_safe
        \<and> (x = Num (Fin (of_nat n))
             \<or> x = Str t \<and> string_interval t = Returns (Num (Fin (of_nat n))))
        \<and> \<not> truthy (removeOnSuccess (settings q)) \<and> \<not> truthy (removeOnFailure (settings q))
        \<and> js_or (jobId j) (Str []) = Str s \<and> CHR '':'' \<notin> set s"
  then show "setInterval q now j x =
        (Returns This,
         j\<lparr>jobId := Str (''r:'' @ digits_of n @ '':'' @ s),
           options := set_prop ''delay''
             (js_or (get_prop (options j) ''delay'') (Num (Fin (of_nat now + 1))))
             (options j)\<rparr>)"
    by (intro setInterval_interval [where t = t]) simp_all
next
  assume "truthy (removeOnSuccess (settings q)) \<or> truthy (removeOnFailure (settings q))
        \<or> (\<exists>s. jobId j = Str s \<and> CHR '':'' \<in> set s)"
  then consider "truthy (removeOnSuccess (settings q)) \<or> truthy (removeOnFailure (settings q))"
    | s where "jobId j = Str s" "CHR '':'' \<in> set s"
    by blast
  then have both: "fst (setInterval q now j x) \<noteq> Returns This
      \<and> (interval_millis x \<noteq> Unmodelled \<longrightarrow> (\<exists>e. fst (setInterval q now j x) = Throws e))"
  proof cases
    case 1
    then show ?thesis by (rule setInterval_auto_remove)
  next
    case 2
    then show ?thesis by (rule setInterval_colon)
  qed
  from both show "fst (setInterval q now j x) \<noteq> Returns This" by simp
  assume "interval_millis x \<noteq> Unmodelled"
  with both show "\<exists>e. fst (setInterval q now j x) = Throws e" by simp
qed


theorem setInterval_recurring_witness:
  "setInterval example_queue 1700000000000 example_job (Num (Fin 300000)) =
     (Returns This,
      example_job\<lparr>jobId := Str ''r:300000:'',
                    options := options example_job @ [(''delay'', Num (Fin 1700000000001))]\<rparr>)
   \<and> get_prop (options (snd (setInterval example_queue 1700000000000 example_job
          (Num (Fin 300000))))) ''delay'' = Num (Fin 1700000000001)
   \<and> setInterval example_queue 1700000000000 (example_job\<lparr>jobId := Str ''abc''\<rparr>)
          (Num (Fin 7)) =
     (Returns This,
      example_job\<lparr>jobId := Str ''r:7:abc'',
                    options := options example_job @ [(''delay'', Num (Fin 1700000000001))]\<rparr>)
   \<and> setInterval example_queue 1700000000000 example_job (Str ''1.5m'') =
     (Returns This,
      example_job\<lparr>jobId := Str ''r:90000:'',
                    options := options example_job @ [(''delay'', Num (Fin 1700000000001))]\<rparr>)
   \<and> (\<exists>e. fst (setInterval example_queue 1700000000000 (example_job\<lparr>jobId := Str ''a:b''\<rparr>)
          (Num (Fin 300000))) = Throws e)
   \<and> (\<exists>e. fst (setInterval
          (example_queue\<lparr>settings := (settings example_queue)\<lparr>removeOnSuccess := Bool True\<rparr>\<rparr>)
          1700000000000 example_job (Num (Fin 300000))) = Throws e)"
proof -
  let ?J = "example_job\<lparr>jobId := Str ''r:300000:'',
                    options := options example_job @ [(''delay'', Num (Fin 1700000000001))]\<rparr>"
  let ?A = "example_job\<lparr>jobId := Str ''abc''\<rparr>"
  let ?Q = "example_queue\<lparr>settings := (settings example_queue)\<lparr>removeOnSuccess := Bool True\<rparr>\<rparr>"
  have d: "digits_of 300000 = ''300000''" "digits_of 7 = ''7''" "digits_of 90000 = ''90000''"
    by (simp_all add: digits_of.simps digit_char_def)
  have q: "\<not> truthy (removeOnSuccess (settings example_queue))"
    "\<not> truthy (removeOnFailure (settings example_queue))"
    by (simp_all add: example_queue_def)
  have o: "set_prop ''delay'' (js_or (get_prop (options example_job) ''delay'') v)
             (options example_job) = options example_job @ [(''delay'', v)]" for v
    by (simp add: example_job_def get_prop_def js_or_def set_prop_def)
  have i: "js_or (jobId example_job) (Str []) = Str []" "js_or (jobId ?A) (Str []) = Str ''abc''"
    by (simp_all add: example_job_def js_or_def)
  have c: "CHR '':'' \<notin> set []" "CHR '':'' \<notin> set ''abc''"
    by simp_all
  have pf: "parseFloat ''1.5m'' = Some (round_double (3 / 2))"
    by (simp add: parseFloat_def is_space_def is_digit_def digit_val_def)
  have r1: "round_double (3 / 2) = Fin (3 / 2)"
    using round_double_eval [of "3 / 2" 0 6755399441055744] by simp
  have r2: "round_double 90000 = Fin 90000"
    using round_double_nat [of 90000] by simp
  have si: "string_interval ''1.5m'' = Returns (Num (Fin (of_nat 90000)))"
    by (simp add: string_interval_def multiplier_def slice_last_def pf r1 r2 trunc_zero_def)
  have h1: "0 < (300000::nat) \<and> of_nat (300000::nat) \<le> max_safe
      \<and> (Num (Fin 300000) = Num (Fin (of_nat 300000))
           \<or> Num (Fin 300000) = Str [] \<and> string_interval [] = Returns (Num (Fin (of_nat 300000))))
      \<and> \<not> truthy (removeOnSuccess (settings example_queue))
      \<and> \<not> truthy (removeOnFailure (settings example_queue))
      \<and> js_or (jobId example_job) (Str []) = Str [] \<and> CHR '':'' \<notin> set []"
    using q i by (simp add: max_safe_def)
  from setInterval_recurring [of example_queue 1700000000000 example_job "Num (Fin 300000)" ?J
      300000 "[]" "[]", THEN conjunct2, THEN conjunct1, THEN mp, OF h1]
  have e1: "setInterval example_queue 1700000000000 example_job (Num (Fin 300000)) =
      (Returns This, ?J)"
    by (simp add: o d)
  have n: "map_of (options example_job) ''delay'' = None"
    by (simp add: example_job_def)
  note ok = setInterval_recurring [of example_queue 1700000000000 example_job
      "Num (Fin 300000)" ?J, THEN conjunct1, THEN mp, OF e1]
  from ok [THEN conjunct2, THEN conjunct1, THEN mp, OF n]
  have a: "get_prop (options (snd (setInterval example_queue 1700000000000 example_job
          (Num (Fin 300000))))) ''delay'' = Num (Fin 1700000000001)"
    by (simp add: e1)
  have h2: "0 < (7::nat) \<and> of_nat (7::nat) \<le> max_safe
      \<and> (Num (Fin 7) = Num (Fin (of_nat 7))
           \<or> Num (Fin 7) = Str [] \<and> string_interval [] = Returns (Num (Fin (of_nat 7))))
      \<and> \<not> truthy (removeOnSuccess (settings example_queue))
      \<and> \<not> truthy (removeOnFailure (settings example_queue))
      \<and> js_or (jobId ?A) (Str []) = Str ''abc'' \<and> CHR '':'' \<notin> set ''abc''"
    using q i by (simp add: max_safe_def)
  from setInterval_recurring [of example_queue 1700000000000 ?A "Num (Fin 7)" ?J
      7 "[]" "''abc''", THEN conjunct2, THEN conjunct1, THEN mp, OF h2]
  have e2: "setInterval example_queue 1700000000000 ?A (Num (Fin 7)) =
     (Returns This,
      example_job\<lparr>jobId := Str ''r:7:abc'',
                    options := options example_job @ [(''delay'', Num (Fin 1700000000001))]\<rparr>)"
    by (simp add: o d)
  have h3: "0 < (90000::nat) \<and> of_nat (90000::nat) \<le> max_safe
      \<and> (Str ''1.5m'' = Num (Fin (of_nat 90000))
           \<or> Str ''1.5m'' = Str ''1.5m''
              \<and> string_interval ''1.5m'' = Returns (Num (Fin (of_nat 90000))))
      \<and> \<not> truthy (removeOnSuccess (settings example_queue))
      \<and> \<not> truthy (removeOnFailure (settings example_queue))
      \<and> js_or (jobId example_job) (Str []) = Str [] \<and> CHR '':'' \<notin> set []"
    using q i si by (simp add: max_safe_def)
  from setInterval_recurring [of example_queue 1700000000000 example_job "Str ''1.5m''" ?J
      90000 "''1.5m''" "[]", THEN conjunct2, THEN conjunct1, THEN mp, OF h3]
  have e3: "setInterval example_queue 1700000000000 example_job (Str ''1.5m'') =
     (Returns This,
      example_job\<lparr>jobId := Str ''r:90000:'',
                    options := options example_job @ [(''delay'', Num (Fin 1700000000001))]\<rparr>)"
    by (simp add: o d)
  have m': "interval_millis (Num (Fin 300000)) \<noteq> Unmodelled"
    by (simp add: interval_millis_def max_safe_def)
  have f1: "truthy (removeOnSuccess (settings example_queue))
      \<or> truthy (removeOnFailure (settings example_queue))
      \<or> (\<exists>s. jobId (example_job\<lparr>jobId := Str ''a:b''\<rparr>) = Str s \<and> CHR '':'' \<in> set s)"
    by simp
  have f2: "truthy (removeOnSuccess (settings ?Q)) \<or> truthy (removeOnFailure (settings ?Q))
      \<or> (\<exists>s. jobId example_job = Str s \<and> CHR '':'' \<in> set s)"
    by simp
  note c1 = setInterval_recurring [of example_queue 1700000000000
      "example_job\<lparr>jobId := Str ''a:b''\<rparr>" "Num (Fin 300000)" ?J,
      THEN conjunct2, THEN conjunct2, THEN mp, OF f1, THEN conjunct2, THEN mp, OF m']
  note c2 = setInterval_recurring [of ?Q 1700000000000 example_job "Num (Fin 300000)" ?J,
      THEN conjunct2, THEN conjunct2, THEN mp, OF f2, THEN conjunct2, THEN mp, OF m']
  from e1 a e2 e3 c1 c2 show ?thesis by (intro conjI)
qed





section \<open>save and the delay option\<close>

text \<open>
  The constructor, called without options or with options that have no delay or a
  truthy one, and every method of the job keep \<open>delay_unset_or_instant\<close>.
\<close>

lemma delay_other_key:
  assumes "k \<noteq> ''delay''" "delay_unset_or_instant j"
  shows "delay_unset_or_instant (j\<lparr>options := set_prop k v (options j)\<rparr>)"
  using assms by (simp add: delay_unset_or_instant_def set_prop_def get_prop_def update_conv')

lemma delay_written:
  assumes "truthy v"
  shows "delay_unset_or_instant (j\<lparr>options := set_prop ''delay'' v (options j)\<rparr>)"
  using assms by (simp add: delay_unset_or_instant_def get_set_prop_same)

lemma delay_same_options:
  assumes "options j' = options j" "delay_unset_or_instant j"
  shows "delay_unset_or_instant j'"
  using assms by (simp add: delay_unset_or_instant_def)

lemma Job_new_delay:
  assumes "Job_new now jid d opts = Returns j"
    and "js_or opts (Obj []) = Obj kvs"
    and "map_of kvs ''delay'' = None \<or> truthy (get_prop kvs ''delay'')"
  shows "delay_unset_or_instant j"
proof -
  let ?o1 = "set_prop ''timestamp''
      (js_or (get_prop kvs ''timestamp'') (Num (Fin (of_nat now)))) kvs"
  let ?o2 = "set_prop ''stacktraces'' (js_or (get_prop ?o1 ''stacktraces'') (Arr [])) ?o1"
  from assms(1,2) have "options j = ?o2"
    by (auto simp: Job_new_def Let_def)
  then have "map_of (options j) ''delay'' = map_of kvs ''delay''"
    by (simp add: set_prop_def update_conv')
  with assms(3) show ?thesis
    by (simp add: delay_unset_or_instant_def get_prop_def)
qed

lemma Job_new_default_delay:
  assumes "Job_new now jid d Undefined = Returns j"
  shows "delay_unset_or_instant j"
proof (rule Job_new_delay [OF assms])
  show "js_or Undefined (Obj []) = Obj []" by (simp add: js_or_def)
  show "map_of [] ''delay'' = None \<or> truthy (get_prop [] ''delay'')" by simp
qed

lemma setId_delay:
  "delay_unset_or_instant j \<Longrightarrow> delay_unset_or_instant (snd (setId j x))"
  by (cases "substr_0_2 x") (simp_all add: setId_def delay_unset_or_instant_def)

lemma retries_delay:
  "delay_unset_or_instant j \<Longrightarrow> delay_unset_or_instant (snd (retries j n))"
  by (cases "less_zero n") (auto simp: retries_def delay_other_key split: bool.splits)

lemma timeout_delay:
  "delay_unset_or_instant j \<Longrightarrow> delay_unset_or_instant (snd (timeout j ms))"
  by (cases "less_zero ms") (auto simp: timeout_def delay_other_key split: bool.splits)

lemma backoff_delay:
  "delay_unset_or_instant j \<Longrightarrow> delay_unset_or_instant (snd (backoff names j s d))"
  by (simp add: backoff_def delay_other_key)

lemma num_greater_truthy: "num_greater ts (of_nat now) \<Longrightarrow> truthy (Num ts)"
  by (cases ts) auto

lemma delayUntil_delay:
  "delay_unset_or_instant j \<Longrightarrow> delay_unset_or_instant (snd (delayUntil now j t))"
  by (cases "timestamp_of t") (simp_all add: delayUntil_def delay_written num_greater_truthy)

lemma setInterval_delay:
  assumes "delay_unset_or_instant j"
  shows "delay_unset_or_instant (snd (setInterval q now j x))"
proof (cases "\<exists>j'. setInterval q now j x = (Returns This, j')")
  case True
  then obtain j' where ok: "setInterval q now j x = (Returns This, j')" by blast
  from setInterval_success [OF ok]
  have o: "options j' = set_prop ''delay''
      (js_or (get_prop (options j) ''delay'') (Num (Fin (of_nat now + 1)))) (options j)"
    by auto
  have "of_nat now + 1 \<noteq> (0::rat)" by (simp add: add_nonneg_eq_0_iff)
  then have "truthy (js_or (get_prop (options j) ''delay'') (Num (Fin (of_nat now + 1))))"
    by (simp add: js_or_def)
  with o have "delay_unset_or_instant j'"
    by (simp add: delay_unset_or_instant_def get_set_prop_same)
  with ok show ?thesis by simp
next
  case False
  then have "options (snd (setInterval q now j x)) = options j"
    by (auto simp: setInterval_def Let_def split: completion.splits if_splits option.splits)
  then show ?thesis using assms by (rule delay_same_options)
qed

lemma save_delay:
  "delay_unset_or_instant j \<Longrightarrow> delay_unset_or_instant (fst (snd (snd (save q j reply))))"
  by (cases reply) (simp_all add: save_fulfilled save_rejected delay_unset_or_instant_def)

text \<open>
  Claim C5. On every job whose \<^verbatim>\<open>options.delay\<close> is unset or an instant
  (\<open>delay_unset_or_instant\<close>, which the constructor and the methods of the job keep):
  \<^verbatim>\<open>save\<close> with \<^verbatim>\<open>options.delay\<close> unset makes one request, the script \<^verbatim>\<open>addJob\<close>
  with the three keys \<^verbatim>\<open>id\<close>, \<^verbatim>\<open>jobs\<close>, \<^verbatim>\<open>waiting\<close>, the candidate id
  (\<^verbatim>\<open>this.id || ''\<close>) and the encoded job; \<^verbatim>\<open>save\<close> with \<^verbatim>\<open>options.delay\<close> set runs
  one script, \<^verbatim>\<open>addDelayedJob\<close> with the four keys \<^verbatim>\<open>id\<close>, \<^verbatim>\<open>jobs\<close>, \<^verbatim>\<open>delayed\<close>,
  \<^verbatim>\<open>earlierDelayed\<close>, the candidate id, the encoded job and the delay. It never runs both
  scripts.
\<close>

theorem save_one_operation:
  "delay_unset_or_instant j \<longrightarrow>
     (map_of (options j) ''delay'' = None \<longrightarrow>
        fst (save q j reply) =
          [EvalScript ''addJob'' 3
             [Val (Str (toKey q ''id'')), Val (Str (toKey q ''jobs'')),
              Val (Str (toKey q ''waiting'')),
              Val (js_or (jobId j) (Str [])), Text (toData j)]])
     \<and> (map_of (options j) ''delay'' \<noteq> None \<longrightarrow>
        filter is_script (fst (save q j reply)) =
          [EvalScript ''addDelayedJob'' 4
             [Val (Str (toKey q ''id'')), Val (Str (toKey q ''jobs'')),
              Val (Str (toKey q ''delayed'')), Val (Str (toKey q ''earlierDelayed'')),
              Val (js_or (jobId j) (Str [])), Text (toData j),
              Val (get_prop (options j) ''delay'')]])"
proof (intro conjI impI)
  assume "map_of (options j) ''delay'' = None"
  then have "\<not> truthy (get_prop (options j) ''delay'')"
    by (simp add: get_prop_def)
  then show "fst (save q j reply) =
          [EvalScript ''addJob'' 3
             [Val (Str (toKey q ''id'')), Val (Str (toKey q ''jobs'')),
              Val (Str (toKey q ''waiting'')),
              Val (js_or (jobId j) (Str [])), Text (toData j)]]"
    by (rule save_calls_falsy)
next
  assume "delay_unset_or_instant j" "map_of (options j) ''delay'' \<noteq> None"
  then have "truthy (get_prop (options j) ''delay'')"
    by (simp add: delay_unset_or_instant_def)
  then show "filter is_script (fst (save q j reply)) =
          [EvalScript ''addDelayedJob'' 4
             [Val (Str (toKey q ''id'')), Val (Str (toKey q ''jobs'')),
              Val (Str (toKey q ''delayed'')), Val (Str (toKey q ''earlierDelayed'')),
              Val (js_or (jobId j) (Str [])), Text (toData j),
              Val (get_prop (options j) ''delay'')]]"
    by (rule save_calls_truthy)
qed

theorem save_one_operation_witness:
  "delay_unset_or_instant example_job
   \<and> fst (save example_queue example_job (Fulfilled (Str ''1''))) =
     [EvalScript ''addJob'' 3
        [Val (Str ''bq:test:id''), Val (Str ''bq:test:jobs''), Val (Str ''bq:test:waiting''),
         Val (Str []), Text (toData example_job)]]
   \<and> delay_unset_or_instant (snd (delayUntil 1700000000000 example_job
        (Plain (Num (Fin 1700000003600000)))))
   \<and> filter is_script
        (fst (save example_queue
           (snd (delayUntil 1700000000000 example_job (Plain (Num (Fin 1700000003600000)))))
           (Fulfilled (Str ''1'')))) =
     [EvalScript ''addDelayedJob'' 4
        [Val (Str ''bq:test:id''), Val (Str ''bq:test:jobs''), Val (Str ''bq:test:delayed''),
         Val (Str ''bq:test:earlierDelayed''), Val (Str []),
         Text (toData (example_job\<lparr>options := options example_job
                  @ [(''delay'', Num (Fin 1700000003600000))]\<rparr>)),
         Val (Num (Fin 1700000003600000))]]"
proof -
  let ?d = "example_job\<lparr>options := options example_job @ [(''delay'', Num (Fin 1700000003600000))]\<rparr>"
  have du: "snd (delayUntil 1700000000000 example_job (Plain (Num (Fin 1700000003600000)))) = ?d"
    by (simp add: delayUntil_def trunc_zero_def example_job_def set_prop_def)
  have n: "map_of (options example_job) ''delay'' = None"
    by (simp add: example_job_def)
  then have w1: "delay_unset_or_instant example_job"
    by (simp add: delay_unset_or_instant_def)
  have t: "get_prop (options example_job @ [(''delay'', Num (Fin 1700000003600000))]) ''delay'' =
      Num (Fin 1700000003600000)"
    "map_of (options ?d) ''delay'' \<noteq> None"
    by (simp_all add: example_job_def get_prop_def)
  then have w2: "delay_unset_or_instant ?d"
    by (simp add: delay_unset_or_instant_def)
  have k: "toKey example_queue = (\<lambda>s. ''bq:test:'' @ s)"
    by (simp add: example_queue_def)
  have i: "js_or (jobId example_job) (Str []) = Str []" "js_or (jobId ?d) (Str []) = Str []"
    by (simp_all add: example_job_def js_or_def)
  from save_one_operation [of example_job example_queue "Fulfilled (Str ''1'')",
      THEN mp, OF w1, THEN conjunct1, THEN mp, OF n]
  have a: "fst (save example_queue example_job (Fulfilled (Str ''1''))) =
     [EvalScript ''addJob'' 3
        [Val (Str ''bq:test:id''), Val (Str ''bq:test:jobs''), Val (Str ''bq:test:waiting''),
         Val (Str []), Text (toData example_job)]]"
    by (simp add: k i)
  from save_one_operation [of ?d example_queue "Fulfilled (Str ''1'')",
      THEN mp, OF w2, THEN conjunct2, THEN mp, OF t(2)]
  have b: "filter is_script (fst (save example_queue ?d (Fulfilled (Str ''1'')))) =
     [EvalScript ''addDelayedJob'' 4
        [Val (Str ''bq:test:id''), Val (Str ''bq:test:jobs''), Val (Str ''bq:test:delayed''),
         Val (Str ''bq:test:earlierDelayed''), Val (Str []),
         Text (toData ?d), Val (Num (Fin 1700000003600000))]]"
    by (simp add: k i t(1))
  from w1 a w2 b show ?thesis unfolding du by (intro conjI)
qed

end
